theory Spec2Isabelle
  imports Main
begin

section \<open>The packaging script \<open>setup.py\<close> of nanobind\<close>

text \<open>
  The script has one module body and two command classes. The module body reads an
  environment variable, extracts the version from the header
  \<open>include/nanobind/nanobind.h\<close> with a regular expression, creates the temporary
  install directory and calls \<open>setup\<close>; the command classes override \<open>run\<close> of
  \<open>sdist\<close> and \<open>build_py\<close>. Everything outside the script (the environment, the file
  system, the search path, the exit status of a subprocess, the packager of setuptools)
  is an explicit input or an explicit log in the state.

  Text is a list of characters; a character stands for a code point below 256.
\<close>

subsection \<open>Errors\<close>

datatype error =
    KeyError string
  | FileNotFoundError string
  | SystemExit int
  | CalledProcessError int "string list"

subsection \<open>The regular expression \<open>VERSION_REGEX\<close>\<close>

text \<open>
  \<^verbatim>\<open>VERSION_REGEX = re.compile(
    r"^\s*#\s*define\s+NB_VERSION_([A-Z]+)\s+(.*)$", re.MULTILINE)\<close>

  The pattern is embedded piece by piece, left to right, as a backtracking matcher in
  continuation style: every piece gets the rest of the pattern as the continuation \<open>k\<close>
  and the rest of the text. A greedy repetition first tries to take one more character
  and falls back to the continuation when the longer attempt fails, as the matcher of
  \<open>re\<close> does.
\<close>

definition newline :: char where
  "newline = CHR 0x0A"

text \<open>\<open>\s\<close> on a \<open>str\<close> pattern: the characters for which \<open>str.isspace\<close> holds; below
  256 these are 9 to 13, 28 to 32, 133 and 160.\<close>

definition is_space :: "char \<Rightarrow> bool" where
  "is_space c = (let n = (of_char c :: nat) in
     (9 \<le> n \<and> n \<le> 13) \<or> (28 \<le> n \<and> n \<le> 32) \<or> n = 133 \<or> n = 160)"

text \<open>\<open>[A-Z]\<close>\<close>

definition is_upper :: "char \<Rightarrow> bool" where
  "is_upper c = (let n = (of_char c :: nat) in 65 \<le> n \<and> n \<le> 90)"

text \<open>\<open>.\<close> without \<open>re.DOTALL\<close>: any character but the newline.\<close>

definition not_newline :: "char \<Rightarrow> bool" where
  "not_newline c = (c \<noteq> newline)"

text \<open>\<open>x*\<close> for a character class \<open>x\<close>, greedy.\<close>

fun star :: "(char \<Rightarrow> bool) \<Rightarrow> (string \<Rightarrow> 'r option) \<Rightarrow> string \<Rightarrow> 'r option" where
  "star p k [] = k []"
| "star p k (c # cs) =
     (if p c then (case star p k cs of Some r \<Rightarrow> Some r | None \<Rightarrow> k (c # cs))
      else k (c # cs))"

text \<open>\<open>x+\<close> for a character class \<open>x\<close>, greedy.\<close>

fun many1 :: "(char \<Rightarrow> bool) \<Rightarrow> (string \<Rightarrow> 'r option) \<Rightarrow> string \<Rightarrow> 'r option" where
  "many1 p k [] = None"
| "many1 p k (c # cs) = (if p c then star p k cs else None)"

text \<open>A literal string of the pattern.\<close>

fun lit :: "string \<Rightarrow> (string \<Rightarrow> 'r option) \<Rightarrow> string \<Rightarrow> 'r option" where
  "lit [] k s = k s"
| "lit (x # xs) k [] = None"
| "lit (x # xs) k (c # cs) = (if c = x then lit xs k cs else None)"

text \<open>\<open>^\<close> with \<open>re.MULTILINE\<close>: at the start of the text or right after a newline. The
  matcher knows the character before the current position (\<open>None\<close> at the start).\<close>

definition bol :: "char option \<Rightarrow> bool" where
  "bol prev = (case prev of None \<Rightarrow> True | Some c \<Rightarrow> c = newline)"

text \<open>\<open>$\<close> with \<open>re.MULTILINE\<close>: at the end of the text or right before a newline.\<close>

definition eol :: "string \<Rightarrow> bool" where
  "eol s = (case s of [] \<Rightarrow> True | c # _ \<Rightarrow> c = newline)"

text \<open>The text of a group: what lies between the position where the group opened (the
  rest of the text there is \<open>s\<close>) and the position where it closed (rest \<open>e\<close>).\<close>

definition group_text :: "string \<Rightarrow> string \<Rightarrow> string" where
  "group_text s e = take (length s - length e) s"

text \<open>A match attempt at one position: the two groups and the rest of the text after
  the match.\<close>

definition VERSION_REGEX :: "char option \<Rightarrow> string \<Rightarrow> (string \<times> string \<times> string) option" where
  "VERSION_REGEX prev s =
     (if bol prev then
        star is_space (lit ''#'' (star is_space (lit ''define'' (many1 is_space
          (lit ''NB_VERSION_'' (\<lambda>g1. many1 is_upper (\<lambda>e1. many1 is_space
             (\<lambda>g2. star not_newline (\<lambda>e2.
                if eol e2 then Some (group_text g1 e1, group_text g2 e2, e2) else None)
              g2) e1) g1)))))) s
      else None)"

text \<open>A match is never empty: its rest is shorter than the text it started on.\<close>

lemma star_rest: "star p k s = Some r \<Longrightarrow> \<exists>s'. length s' \<le> length s \<and> k s' = Some r"
proof (induction s)
  case Nil
  then show ?case by auto
next
  case (Cons c cs)
  show ?case
  proof (cases "p c \<and> star p k cs \<noteq> None")
    case True
    with Cons.prems have "star p k cs = Some r" by auto
    from Cons.IH [OF this] obtain s' where "length s' \<le> length cs" and "k s' = Some r"
      by blast
    then have "length s' \<le> length (c # cs) \<and> k s' = Some r" by simp
    then show ?thesis by blast
  next
    case False
    with Cons.prems have "k (c # cs) = Some r" by (auto split: if_splits option.splits)
    then show ?thesis by blast
  qed
qed

lemma many1_rest: "many1 p k s = Some r \<Longrightarrow> \<exists>s'. length s' < length s \<and> k s' = Some r"
proof (cases s)
  case Nil
  then show "many1 p k s = Some r \<Longrightarrow> ?thesis" by simp
next
  case (Cons c cs)
  assume "many1 p k s = Some r"
  with Cons have "star p k cs = Some r" by (simp split: if_splits)
  from star_rest [OF this] obtain s' where "length s' \<le> length cs" and "k s' = Some r"
    by blast
  with Cons have "length s' < length s \<and> k s' = Some r" by simp
  then show ?thesis by blast
qed

lemma lit_rest: "lit l k s = Some r \<Longrightarrow> \<exists>s'. length s' \<le> length s \<and> k s' = Some r"
proof (induction l k s rule: lit.induct)
  case (1 k s)
  then show ?case by auto
next
  case (2 x xs k)
  then show ?case by simp
next
  case (3 x xs k c cs)
  from "3.prems" have cx: "c = x" and "lit xs k cs = Some r" by (simp_all split: if_splits)
  from "3.IH" [OF this] obtain s' where "length s' \<le> length cs" and "k s' = Some r"
    by blast
  then have "length s' \<le> length (c # cs) \<and> k s' = Some r" by simp
  then show ?case by blast
qed

lemma VERSION_REGEX_rest:
  assumes "VERSION_REGEX prev s = Some (a, b, rest)"
  shows "length rest < length s"
proof -
  from assms have m0: "star is_space (lit ''#'' (star is_space (lit ''define'' (many1 is_space
          (lit ''NB_VERSION_'' (\<lambda>g1. many1 is_upper (\<lambda>e1. many1 is_space
             (\<lambda>g2. star not_newline (\<lambda>e2.
                if eol e2 then Some (group_text g1 e1, group_text g2 e2, e2) else None)
              g2) e1) g1)))))) s = Some (a, b, rest)"
    by (simp add: VERSION_REGEX_def split: if_splits)
  from star_rest [OF m0] obtain s1 where s1: "length s1 \<le> length s"
    and m1: "lit ''#'' (star is_space (lit ''define'' (many1 is_space
          (lit ''NB_VERSION_'' (\<lambda>g1. many1 is_upper (\<lambda>e1. many1 is_space
             (\<lambda>g2. star not_newline (\<lambda>e2.
                if eol e2 then Some (group_text g1 e1, group_text g2 e2, e2) else None)
              g2) e1) g1))))) s1 = Some (a, b, rest)"
    by blast
  from lit_rest [OF m1] obtain s2 where s2: "length s2 \<le> length s1"
    and m2: "star is_space (lit ''define'' (many1 is_space
          (lit ''NB_VERSION_'' (\<lambda>g1. many1 is_upper (\<lambda>e1. many1 is_space
             (\<lambda>g2. star not_newline (\<lambda>e2.
                if eol e2 then Some (group_text g1 e1, group_text g2 e2, e2) else None)
              g2) e1) g1)))) s2 = Some (a, b, rest)"
    by blast
  from star_rest [OF m2] obtain s3 where s3: "length s3 \<le> length s2"
    and m3: "lit ''define'' (many1 is_space
          (lit ''NB_VERSION_'' (\<lambda>g1. many1 is_upper (\<lambda>e1. many1 is_space
             (\<lambda>g2. star not_newline (\<lambda>e2.
                if eol e2 then Some (group_text g1 e1, group_text g2 e2, e2) else None)
              g2) e1) g1))) s3 = Some (a, b, rest)"
    by blast
  from lit_rest [OF m3] obtain s4 where s4: "length s4 \<le> length s3"
    and m4: "many1 is_space
          (lit ''NB_VERSION_'' (\<lambda>g1. many1 is_upper (\<lambda>e1. many1 is_space
             (\<lambda>g2. star not_newline (\<lambda>e2.
                if eol e2 then Some (group_text g1 e1, group_text g2 e2, e2) else None)
              g2) e1) g1)) s4 = Some (a, b, rest)"
    by blast
  from many1_rest [OF m4] obtain s5 where s5: "length s5 < length s4"
    and m5: "lit ''NB_VERSION_'' (\<lambda>g1. many1 is_upper (\<lambda>e1. many1 is_space
             (\<lambda>g2. star not_newline (\<lambda>e2.
                if eol e2 then Some (group_text g1 e1, group_text g2 e2, e2) else None)
              g2) e1) g1) s5 = Some (a, b, rest)"
    by blast
  from lit_rest [OF m5] obtain g1 where g1: "length g1 \<le> length s5"
    and m6: "many1 is_upper (\<lambda>e1. many1 is_space
             (\<lambda>g2. star not_newline (\<lambda>e2.
                if eol e2 then Some (group_text g1 e1, group_text g2 e2, e2) else None)
              g2) e1) g1 = Some (a, b, rest)"
    by blast
  from many1_rest [OF m6] obtain e1 where e1: "length e1 < length g1"
    and m7: "many1 is_space
             (\<lambda>g2. star not_newline (\<lambda>e2.
                if eol e2 then Some (group_text g1 e1, group_text g2 e2, e2) else None)
              g2) e1 = Some (a, b, rest)"
    by blast
  from many1_rest [OF m7] obtain g2 where g2: "length g2 < length e1"
    and m8: "star not_newline (\<lambda>e2.
                if eol e2 then Some (group_text g1 e1, group_text g2 e2, e2) else None)
              g2 = Some (a, b, rest)"
    by blast
  from star_rest [OF m8] obtain e2 where e2: "length e2 \<le> length g2"
    and m9: "(if eol e2 then Some (group_text g1 e1, group_text g2 e2, e2) else None)
               = Some (a, b, rest)"
    by blast
  from m9 have "e2 = rest" by (simp split: if_splits)
  with e2 have "length rest \<le> length g2" by simp
  with s1 s2 s3 s4 s5 g1 e1 g2 show ?thesis by linarith
qed

subsection \<open>\<open>findall\<close>, \<open>dict\<close> and \<open>str.format\<close>\<close>

text \<open>
  \<open>VERSION_REGEX.findall(text)\<close> scans the text from left to right. Where the pattern
  matches, the pair of its two groups is collected and the scan goes on at the end of
  the match; where it does not, the scan moves one character on. The character before
  the new position is the last character of the matched text, which is never empty
  (\<open>VERSION_REGEX_rest\<close>).
\<close>

function findall :: "char option \<Rightarrow> string \<Rightarrow> (string \<times> string) list" where
  "findall prev s =
     (case VERSION_REGEX prev s of
        Some (g1, g2, rest) \<Rightarrow>
          (g1, g2) # findall (Some (last (take (length s - length rest) s))) rest
      | None \<Rightarrow> (case s of [] \<Rightarrow> [] | c # cs \<Rightarrow> findall (Some c) cs))"
  by pat_completeness auto
termination
  by (relation "measure (\<lambda>(prev, s). length s)") (auto dest: VERSION_REGEX_rest)

declare findall.simps [simp del]

text \<open>\<open>dict(pairs)\<close>: the pairs are inserted in order, a later pair replaces an earlier
  one with the same key.\<close>

definition dict :: "('k \<times> 'v) list \<Rightarrow> ('k \<rightharpoonup> 'v)" where
  "dict ps = foldl (\<lambda>m (k, v). m(k \<mapsto> v)) Map.empty ps"

text \<open>A format string is a sequence of literal text and replacement fields;
  \<open>fmt.format(**m)\<close> looks the fields up in \<open>m\<close> from left to right and raises
  \<open>KeyError\<close> at the first field that \<open>m\<close> does not have.\<close>

datatype piece = Lit string | Field string

fun format :: "piece list \<Rightarrow> (string \<rightharpoonup> string) \<Rightarrow> error + string" where
  "format [] m = Inr []"
| "format (Lit l # ps) m =
     (case format ps m of Inl e \<Rightarrow> Inl e | Inr r \<Rightarrow> Inr (l @ r))"
| "format (Field f # ps) m =
     (case m f of
        None \<Rightarrow> Inl (KeyError f)
      | Some v \<Rightarrow> (case format ps m of Inl e \<Rightarrow> Inl e | Inr r \<Rightarrow> Inr (v @ r)))"

text \<open>\<^verbatim>\<open>"{MAJOR}.{MINOR}.{PATCH}"\<close>\<close>

definition version_format :: "piece list" where
  "version_format = [Field ''MAJOR'', Lit ''.'', Field ''MINOR'', Lit ''.'', Field ''PATCH'']"

text \<open>
  \<^verbatim>\<open>matches = dict(VERSION_REGEX.findall(f.read()))
  nanobind_version = "{MAJOR}.{MINOR}.{PATCH}".format(**matches)\<close>
\<close>

definition matches :: "string \<Rightarrow> (string \<rightharpoonup> string)" where
  "matches text = dict (findall None text)"

definition nanobind_version :: "string \<Rightarrow> error + string" where
  "nanobind_version text = format version_format (matches text)"

subsection \<open>Paths\<close>

text \<open>
  \<open>os.curdir\<close>, and the functions of \<open>os.path\<close> (module \<open>posixpath\<close>) the script
  calls: \<open>isabs\<close>, \<open>join\<close> (of two paths), \<open>dirname\<close>, \<open>normpath\<close> and \<open>abspath\<close>. The
  current directory, which \<open>abspath\<close> reads with \<open>os.getcwd()\<close>, is an argument.
\<close>

definition os_curdir :: string where
  "os_curdir = ''.''"

definition sep :: char where
  "sep = CHR ''/''"

definition isabs :: "string \<Rightarrow> bool" where
  "isabs p = (case p of [] \<Rightarrow> False | c # _ \<Rightarrow> c = sep)"

definition join :: "string \<Rightarrow> string \<Rightarrow> string" where
  "join a b =
     (if isabs b then b
      else if a = [] \<or> last a = sep then a @ b
      else a @ [sep] @ b)"

text \<open>\<open>p.rstrip('/')\<close>\<close>

definition rstrip_sep :: "string \<Rightarrow> string" where
  "rstrip_sep p = rev (dropWhile (\<lambda>c. c = sep) (rev p))"

text \<open>\<open>p[:p.rfind('/') + 1]\<close>: the text up to and with the last separator.\<close>

definition head_of :: "string \<Rightarrow> string" where
  "head_of p = rev (dropWhile (\<lambda>c. c \<noteq> sep) (rev p))"

definition dirname :: "string \<Rightarrow> string" where
  "dirname p =
     (let head = head_of p
      in if head \<noteq> [] \<and> \<not> list_all (\<lambda>c. c = sep) head then rstrip_sep head else head)"

text \<open>\<open>path.split('/')\<close>\<close>

fun split_sep :: "string \<Rightarrow> string list" where
  "split_sep [] = [[]]"
| "split_sep (c # cs) =
     (if c = sep then [] # split_sep cs
      else (case split_sep cs of [] \<Rightarrow> [[c]] | x # xs \<Rightarrow> (c # x) # xs))"

text \<open>\<open>'/'.join(comps)\<close>\<close>

fun join_sep :: "string list \<Rightarrow> string" where
  "join_sep [] = []"
| "join_sep [x] = x"
| "join_sep (x # y # ys) = x @ [sep] @ join_sep (y # ys)"

text \<open>The loop of \<open>normpath\<close> over the components, with the list \<open>new_comps\<close>.\<close>

fun norm_comps :: "nat \<Rightarrow> string list \<Rightarrow> string list \<Rightarrow> string list" where
  "norm_comps initial_slashes new_comps [] = new_comps"
| "norm_comps initial_slashes new_comps (c # comps) =
     (if c = [] \<or> c = ''.'' then norm_comps initial_slashes new_comps comps
      else if c \<noteq> ''..'' \<or> (initial_slashes = 0 \<and> new_comps = [])
                \<or> (new_comps \<noteq> [] \<and> last new_comps = ''..'')
        then norm_comps initial_slashes (new_comps @ [c]) comps
      else if new_comps \<noteq> [] then norm_comps initial_slashes (butlast new_comps) comps
      else norm_comps initial_slashes new_comps comps)"

text \<open>The number of leading separators \<open>normpath\<close> keeps: two for a path that starts
  with exactly two, one for any other absolute path, none for a relative path.\<close>

definition initial_slashes_of :: "string \<Rightarrow> nat" where
  "initial_slashes_of path =
     (if isabs path then
        (if take 2 path = ''//'' \<and> take 3 path \<noteq> ''///'' then 2 else 1)
      else 0)"

definition normpath :: "string \<Rightarrow> string" where
  "normpath path =
     (if path = [] then ''.''
      else
        let initial_slashes = initial_slashes_of path;
            p = replicate initial_slashes sep
                  @ join_sep (norm_comps initial_slashes [] (split_sep path))
        in if p = [] then ''.'' else p)"

definition abspath :: "string \<Rightarrow> string \<Rightarrow> string" where
  "abspath cwd path = normpath (if isabs path then path else join cwd path)"

subsection \<open>The environment and the state\<close>

text \<open>
  What the script reads from outside: \<open>os.environ\<close>, \<open>__file__\<close>, the current
  directory, the files it can open, what \<open>shutil.which\<close> resolves, the exit status of a
  subprocess started with given arguments, and the name \<open>tempfile\<close> gives to the
  \<open>n\<close>-th temporary directory of the process (chosen by the system, new each time).
\<close>

record env =
  environ :: "string \<rightharpoonup> string"
  file_name :: string
  getcwd :: string
  files :: "string \<rightharpoonup> string"
  search_path :: "string \<rightharpoonup> string"
  exit_status :: "string list \<Rightarrow> int"
  mkdtemp :: "string \<Rightarrow> nat \<Rightarrow> string"

text \<open>The two commands for which the script registers a class in \<open>cmdclass\<close>.\<close>

datatype command = build_py | sdist

text \<open>
  The state: the names \<open>shutil.which\<close> was asked for, the argument lists of the
  subprocesses started, what the script wrote to \<open>sys.stderr\<close>, the number of temporary
  directories created and the ones that exist, \<open>package_dir\<close> and \<open>package_data\<close> of
  the distribution, and a record of every call of the packager (\<open>super().run()\<close> of a
  command class): the command, and the entries of \<open>package_dir\<close> and \<open>package_data\<close>
  for \<open>nanobind\<close> in force at the call.
\<close>

record world =
  which_calls :: "string list"
  spawned :: "string list list"
  stderr :: string
  tmp_count :: nat
  dirs :: "string set"
  package_dir :: "string \<rightharpoonup> string"
  package_data :: "string \<rightharpoonup> string list"
  packager_runs :: "(command \<times> string option \<times> string list option) list"

definition initial_world :: world where
  "initial_world =
     \<lparr>which_calls = [], spawned = [], stderr = [], tmp_count = 0, dirs = {},
      package_dir = Map.empty, package_data = Map.empty, packager_runs = []\<rparr>"

text \<open>The module variables the command classes read.\<close>

record globals =
  NB_USE_SUBMODULE_DEPS :: string
  this_directory :: string
  version :: string
  install_dir :: string

text \<open>\<open>shutil.which(name)\<close>\<close>

definition shutil_which :: "env \<Rightarrow> string \<Rightarrow> world \<Rightarrow> string option \<times> world" where
  "shutil_which e name w = (search_path e name, w\<lparr>which_calls := which_calls w @ [name]\<rparr>)"

text \<open>\<open>subprocess.check_call(args)\<close>: starts the process, waits for it and raises
  \<open>CalledProcessError\<close> when its exit status is not zero.\<close>

definition check_call :: "env \<Rightarrow> string list \<Rightarrow> world \<Rightarrow> error option \<times> world" where
  "check_call e args w =
     (let w' = w\<lparr>spawned := spawned w @ [args]\<rparr>; rc = exit_status e args
      in if rc \<noteq> 0 then (Some (CalledProcessError rc args), w') else (None, w'))"

text \<open>\<open>TemporaryDirectory(prefix=...)\<close> creates a directory; \<open>cleanup\<close> removes it.\<close>

definition TemporaryDirectory :: "env \<Rightarrow> string \<Rightarrow> world \<Rightarrow> string \<times> world" where
  "TemporaryDirectory e prefix w =
     (let name = mkdtemp e prefix (tmp_count w)
      in (name, w\<lparr>tmp_count := Suc (tmp_count w), dirs := insert name (dirs w)\<rparr>))"

definition cleanup :: "string \<Rightarrow> world \<Rightarrow> world" where
  "cleanup name w = w\<lparr>dirs := dirs w - {name}\<rparr>"

text \<open>\<open>print(msg, file=sys.stderr)\<close>\<close>

definition print_stderr :: "string \<Rightarrow> world \<Rightarrow> world" where
  "print_stderr msg w = w\<lparr>stderr := stderr w @ msg @ [newline]\<rparr>"

text \<open>\<open>super().run()\<close>: the packager of setuptools, which reads the root and the
  patterns of the package from the distribution when it is called.\<close>

definition packager :: "command \<Rightarrow> world \<Rightarrow> world" where
  "packager c w =
     w\<lparr>packager_runs :=
         packager_runs w @ [(c, package_dir w ''nanobind'', package_data w ''nanobind'')]\<rparr>"

subsection \<open>The command classes\<close>

text \<open>
  \<^verbatim>\<open>class NanobindSdistCommand(sdist):
    def run(self):
        self.distribution.package_dir['nanobind'] = os.curdir
        return super().run()\<close>
\<close>

definition NanobindSdistCommand_run :: "globals \<Rightarrow> env \<Rightarrow> world \<Rightarrow> error option \<times> world" where
  "NanobindSdistCommand_run g e w =
     (let w1 = w\<lparr>package_dir := (package_dir w)(''nanobind'' \<mapsto> os_curdir)\<rparr>
      in (None, packager sdist w1))"

text \<open>The argument lists of the two stages.\<close>

definition configure_args :: "globals \<Rightarrow> string \<Rightarrow> string \<Rightarrow> string list" where
  "configure_args g cmake_exe build_dir =
     [cmake_exe,
      ''-S'', this_directory g,
      ''-B'', build_dir,
      ''-DNB_PYTHON_INSTALLATION=ON'',
      ''-DNB_USE_SUBMODULE_DEPS='' @ NB_USE_SUBMODULE_DEPS g]"

definition install_args :: "globals \<Rightarrow> string \<Rightarrow> string \<Rightarrow> string list" where
  "install_args g cmake_exe build_dir =
     [cmake_exe, ''--install'', build_dir, ''--prefix'', install_dir g]"

text \<open>
  \<^verbatim>\<open>class NanobindBuildPyCommand(build_py):
    def run(self):
        cmake_exe = shutil.which("cmake")
        if not cmake_exe:
            print("CMake executable can't be found", file=sys.stderr)
            exit(1)
        with TemporaryDirectory() as build_dir:
            subprocess.check_call([cmake_exe, "-S", ...], stdout=sys.stderr)
            subprocess.check_call([cmake_exe, "--install", ...], stdout=sys.stderr)
        return super().run()\<close>

  \<open>not cmake_exe\<close> holds for \<open>None\<close> and for the empty string. The body of the \<open>with\<close>
  statement ends at the first stage that raises; the directory is cleaned up when the
  statement is left, with or without an exception. \<open>cmake_not_found\<close> is the branch of
  the \<open>if\<close>: the message and \<open>exit(1)\<close>, which raises \<open>SystemExit(1)\<close>.
\<close>

definition with_body :: "globals \<Rightarrow> env \<Rightarrow> string \<Rightarrow> string \<Rightarrow> world \<Rightarrow> error option \<times> world" where
  "with_body g e cmake_exe build_dir w =
     (case check_call e (configure_args g cmake_exe build_dir) w of
        (Some err, w') \<Rightarrow> (Some err, w')
      | (None, w') \<Rightarrow> check_call e (install_args g cmake_exe build_dir) w')"

definition cmake_not_found :: "world \<Rightarrow> error option \<times> world" where
  "cmake_not_found w =
     (Some (SystemExit 1), print_stderr ''CMake executable can't be found'' w)"

definition NanobindBuildPyCommand_run :: "globals \<Rightarrow> env \<Rightarrow> world \<Rightarrow> error option \<times> world" where
  "NanobindBuildPyCommand_run g e w =
     (case shutil_which e ''cmake'' w of (cmake_exe, w1) \<Rightarrow>
        (case cmake_exe of
           None \<Rightarrow> cmake_not_found w1
         | Some exe \<Rightarrow>
             if exe = [] then cmake_not_found w1
             else
               (case TemporaryDirectory e ''tmp'' w1 of (build_dir, w2) \<Rightarrow>
                 (case with_body g e exe build_dir w2 of (r, w3) \<Rightarrow>
                   (case r of
                      Some err \<Rightarrow> (Some err, cleanup build_dir w3)
                    | None \<Rightarrow> (None, packager build_py (cleanup build_dir w3)))))))"

subsection \<open>The module body and \<open>setup\<close>\<close>

text \<open>The patterns of \<open>package_data\<close> for \<open>nanobind\<close>.\<close>

definition manifest :: "string list" where
  "manifest =
     [''include/nanobind/**/*.h'',
      ''include/nanobind/intrusive/*.inl'',
      ''**/cmake/nanobind-config.cmake'',
      ''**/cmake/nanobind.cmake'',
      ''**/cmake/darwin-ld-cpython.sym'',
      ''**/cmake/darwin-ld-pypy.sym'',
      ''src/**/*.h'',
      ''src/**/*.cpp'',
      ''src/**/*.py'',
      ''**/ext/robin_map/include/tsl/*.h'',
      ''**/ext/robin_map/*.natvis'',
      ''**/ext/robin_map/CMakeLists.txt'',
      ''CMakeLists.txt'',
      ''nanobind-config.cmake.in'',
      ''tests/*.h'',
      ''tests/*.cpp'']"

text \<open>\<open>setup\<close> runs the commands of the command line in order on one distribution
  and stops at the first that raises.\<close>

definition run_command :: "globals \<Rightarrow> env \<Rightarrow> command \<Rightarrow> world \<Rightarrow> error option \<times> world" where
  "run_command g e c w =
     (case c of
        build_py \<Rightarrow> NanobindBuildPyCommand_run g e w
      | sdist \<Rightarrow> NanobindSdistCommand_run g e w)"

fun run_commands :: "globals \<Rightarrow> env \<Rightarrow> command list \<Rightarrow> world \<Rightarrow> error option \<times> world" where
  "run_commands g e [] w = (None, w)"
| "run_commands g e (c # cs) w =
     (case run_command g e c w of
        (Some err, w') \<Rightarrow> (Some err, w')
      | (None, w') \<Rightarrow> run_commands g e cs w')"

definition setup' :: "globals \<Rightarrow> env \<Rightarrow> command list \<Rightarrow> world \<Rightarrow> error option \<times> world" where
  "setup' g e cmds w =
     run_commands g e cmds
       (w\<lparr>package_dir := [''nanobind'' \<mapsto> install_dir g],
          package_data := [''nanobind'' \<mapsto> manifest]\<rparr>)"

text \<open>The path of the header the module body opens.\<close>

definition header_path :: "env \<Rightarrow> string" where
  "header_path e =
     join (abspath (getcwd e) (dirname (file_name e))) ''include/nanobind/nanobind.h''"

text \<open>The module body up to the call of \<open>setup\<close> (lines 15 to 51): it leaves the
  module variables, or raises.\<close>

definition module_body :: "env \<Rightarrow> world \<Rightarrow> error + (globals \<times> world)" where
  "module_body e w =
     (let deps = (case environ e ''NB_USE_SUBMODULE_DEPS'' of None \<Rightarrow> ''ON'' | Some v \<Rightarrow> v);
          this_dir = abspath (getcwd e) (dirname (file_name e))
      in case files e (join this_dir ''include/nanobind/nanobind.h'') of
           None \<Rightarrow> Inl (FileNotFoundError (join this_dir ''include/nanobind/nanobind.h''))
         | Some text \<Rightarrow>
             (case nanobind_version text of
                Inl err \<Rightarrow> Inl err
              | Inr v \<Rightarrow>
                  (case TemporaryDirectory e ''nanobind_cmake_'' w of (name, w1) \<Rightarrow>
                     Inr (\<lparr>NB_USE_SUBMODULE_DEPS = deps, this_directory = this_dir,
                           version = v, install_dir = name\<rparr>, w1))))"

text \<open>The whole script, run with the commands of the command line.\<close>

definition setup_py :: "env \<Rightarrow> command list \<Rightarrow> error option \<times> world" where
  "setup_py e cmds =
     (case module_body e initial_world of
        Inl err \<Rightarrow> (Some err, initial_world)
      | Inr (g, w) \<Rightarrow> setup' g e cmds w)"

text \<open>The exit status of the process: the code of \<open>SystemExit\<close>, 1 for any other
  exception that nothing catches, 0 otherwise.\<close>

definition process_exit :: "error option \<Rightarrow> int" where
  "process_exit r = (case r of None \<Rightarrow> 0 | Some (SystemExit n) \<Rightarrow> n | Some _ \<Rightarrow> 1)"

subsection \<open>Example inputs\<close>

text \<open>A header with the three version fields and a fourth one, and an environment in
  which the script \<open>/repo/setup.py\<close> is started from \<open>/home/user\<close>, the build tool is
  found and both of its stages succeed.\<close>

definition ex_header :: string where
  "ex_header =
     ''#pragma once\<newline>\<newline>#define NB_VERSION_MAJOR 1\<newline>#define NB_VERSION_MINOR 2\<newline>#define NB_VERSION_PATCH 3\<newline>#define NB_VERSION_DEV   1 // A value > 0 indicates a development release\<newline>''"

definition ex_env :: env where
  "ex_env =
     \<lparr>environ = Map.empty,
      file_name = ''/repo/setup.py'',
      getcwd = ''/home/user'',
      files = [''/repo/include/nanobind/nanobind.h'' \<mapsto> ex_header],
      search_path = [''cmake'' \<mapsto> ''/usr/bin/cmake''],
      exit_status = (\<lambda>args. 0),
      mkdtemp = (\<lambda>prefix n. ''/tmp/'' @ prefix @ (if n = 0 then ''X'' else ''Y''))\<rparr>"

text \<open>The module variables and the state the module body leaves there.\<close>

definition ex_globals :: globals where
  "ex_globals =
     \<lparr>NB_USE_SUBMODULE_DEPS = ''ON'', this_directory = ''/repo'', version = ''1.2.3'',
      install_dir = ''/tmp/nanobind_cmake_X''\<rparr>"

definition ex_world :: world where
  "ex_world = initial_world\<lparr>tmp_count := 1, dirs := {''/tmp/nanobind_cmake_X''}\<rparr>"

text \<open>The state in which \<open>setup\<close> runs the first command there.\<close>

definition ex_dist :: world where
  "ex_dist =
     ex_world\<lparr>package_dir := [''nanobind'' \<mapsto> ''/tmp/nanobind_cmake_X''],
       package_data := [''nanobind'' \<mapsto> manifest]\<rparr>"

text \<open>An exit status for the stages: the install stage fails with 2.\<close>

definition install_fails :: "string list \<Rightarrow> int" where
  "install_fails args = (if take 1 (drop 1 args) = [''--install''] then 2 else 0)"

text \<open>An exit status for the stages: the configure stage fails with 1.\<close>

definition configure_fails :: "string list \<Rightarrow> int" where
  "configure_fails args = (if take 1 (drop 1 args) = [''-S''] then 1 else 0)"

definition ex_env_install_fails :: env where
  "ex_env_install_fails = ex_env\<lparr>exit_status := install_fails\<rparr>"

definition ex_env_configure_fails :: env where
  "ex_env_configure_fails = ex_env\<lparr>exit_status := configure_fails\<rparr>"

text \<open>The build tool is not on the search path.\<close>

definition ex_env_no_cmake :: env where
  "ex_env_no_cmake = ex_env\<lparr>search_path := Map.empty\<rparr>"

text \<open>The toggle is set, to a word that is no boolean literal of the build tool.\<close>

definition ex_env_toggle :: env where
  "ex_env_toggle = ex_env\<lparr>environ := [''NB_USE_SUBMODULE_DEPS'' \<mapsto> ''maybe'']\<rparr>"


text \<open>A header without the field \<open>PATCH\<close>, and the environment with this header.\<close>

definition ex_header_no_patch :: string where
  "ex_header_no_patch = ''#define NB_VERSION_MAJOR 1\<newline>#define NB_VERSION_MINOR 2\<newline>''"

definition ex_env_no_patch :: env where
  "ex_env_no_patch =
     ex_env\<lparr>files := [''/repo/include/nanobind/nanobind.h'' \<mapsto> ex_header_no_patch]\<rparr>"


subsection \<open>The last definition of a field\<close>

text \<open>The value of the last pair with key \<open>k\<close> in a list of pairs, if there is one: for
  the list \<open>findall\<close> returns, the value of the last definition of the field \<open>k\<close> in
  the text.\<close>

definition last_value :: "'k \<Rightarrow> ('k \<times> 'v) list \<Rightarrow> 'v option" where
  "last_value k ps =
     (case filter (\<lambda>p. fst p = k) ps of [] \<Rightarrow> None | q # qs \<Rightarrow> Some (snd (last (q # qs))))"

subsection \<open>The match without backtracking\<close>

text \<open>
  The same match attempt written as one pass over the text: skip white space, expect
  \<open>#\<close>, skip white space, expect \<open>define\<close>, and so on. It is proved below to agree with
  \<open>VERSION_REGEX\<close> wherever \<open>^\<close> holds, so the backtracking of the pattern never
  changes a result.
\<close>

definition scan :: "string \<Rightarrow> (string \<times> string \<times> string) option" where
  "scan s =
     (let a = dropWhile is_space s in
      if take 1 a = ''#'' then
        let d = dropWhile is_space (drop 1 a) in
        if take 6 d = ''define'' then
          let m = drop 6 d in
          if takeWhile is_space m = [] then None else
          let n = dropWhile is_space m in
          if take 11 n = ''NB_VERSION_'' then
            let g1 = drop 11 n in
            if takeWhile is_upper g1 = [] then None else
            let e1 = dropWhile is_upper g1 in
            if takeWhile is_space e1 = [] then None else
            let g2 = dropWhile is_space e1 in
            Some (takeWhile is_upper g1, takeWhile not_newline g2, dropWhile not_newline g2)
          else None
        else None
      else None)"

subsection \<open>Headers as lines\<close>

text \<open>
  A line of a header. \<open>Define indent s1 s2 k gap v\<close> is a definition of a version field
  in any spelling the pattern accepts within one line: the white space before \<open>#\<close>, the
  white space between \<open>#\<close> and \<open>define\<close>, the white space between \<open>define\<close> and the
  name, the field \<open>k\<close>, the white space after the name, and the value \<open>v\<close>. \<open>Other t\<close> is
  any other line.
\<close>

datatype line = Define string string string string string string | Other string

text \<open>The text of a line, without its end.\<close>

fun render :: "line \<Rightarrow> string" where
  "render (Define indent s1 s2 k gap v) =
     indent @ ''#'' @ s1 @ ''define'' @ s2 @ ''NB_VERSION_'' @ k @ gap @ v"
| "render (Other t) = t"

text \<open>The definitions a line holds: the field and the value as they are written.\<close>

fun definitions :: "line \<Rightarrow> (string \<times> string) list" where
  "definitions (Define indent s1 s2 k gap v) = [(k, v)]"
| "definitions (Other t) = []"

text \<open>White space inside a line.\<close>

definition blank :: "char \<Rightarrow> bool" where
  "blank c = (is_space c \<and> c \<noteq> newline)"

text \<open>
  The text of a line on which the pattern fails before the line ends: after its leading
  white space the line is empty, or it does not start with \<open>#\<close>; or \<open>#\<close> and white
  space are followed by a word other than \<open>define\<close>; or \<open>define\<close> is followed by a
  character that is no white space, or by white space and a name that does not start
  with \<open>NB_VERSION_\<close>; or \<open>NB_VERSION_\<close> is followed by a character that is no
  upper-case letter, or by upper-case letters and a character that is no white space.
  What is left out are the lines that end inside a definition (\<open>#\<close>, \<open>#define\<close>,
  \<open>#define NB_VERSION_DEV\<close> and the like), on which the pattern goes on into the next
  line.
\<close>

definition other_text :: "string \<Rightarrow> bool" where
  "other_text t =
     (let a = dropWhile is_space t in
      a = [] \<or> take 1 a \<noteq> ''#'' \<or>
      (let d = dropWhile is_space (drop 1 a) in
       d \<noteq> [] \<and> (take 6 d \<noteq> ''define'' \<or>
         (let m = drop 6 d in
          m \<noteq> [] \<and> (takeWhile is_space m = [] \<or>
            (let n = dropWhile is_space m in
             n \<noteq> [] \<and> (take 11 n \<noteq> ''NB_VERSION_'' \<or>
               (let g1 = drop 11 n in
                g1 \<noteq> [] \<and> (takeWhile is_upper g1 = [] \<or>
                  (let e1 = dropWhile is_upper g1 in
                   e1 \<noteq> [] \<and> takeWhile is_space e1 = []))))))))))"

text \<open>
  In a definition the white space holds no line end, there is some between \<open>define\<close>
  and the name and some after the name, the field name is made of upper-case letters,
  and the value starts with a character other than white space; no line holds a line
  end.
\<close>

fun well_formed :: "line \<Rightarrow> bool" where
  "well_formed (Define indent s1 s2 k gap v) =
     (list_all blank indent \<and> list_all blank s1 \<and> s2 \<noteq> [] \<and> list_all blank s2
      \<and> k \<noteq> [] \<and> list_all is_upper k \<and> gap \<noteq> [] \<and> list_all blank gap
      \<and> list_all not_newline v \<and> (case v of [] \<Rightarrow> False | c # _ \<Rightarrow> \<not> is_space c))"
| "well_formed (Other t) = (list_all not_newline t \<and> other_text t)"

text \<open>\<^verbatim>\<open>"\\n".join(lines)\<close>\<close>

fun join_lines :: "string list \<Rightarrow> string" where
  "join_lines [] = []"
| "join_lines [l] = l"
| "join_lines (l # l' # ls) = l @ newline # join_lines (l' # ls)"

text \<open>The text of a header made of lines.\<close>

definition header_text :: "line list \<Rightarrow> string" where
  "header_text ls = join_lines (map render ls)"

text \<open>The definitions of the three fields the version is made of.\<close>

definition version_field :: "string \<times> string \<Rightarrow> bool" where
  "version_field p = (fst p = ''MAJOR'' \<or> fst p = ''MINOR'' \<or> fst p = ''PATCH'')"

text \<open>The example header as lines, and the three definitions of the version 1.2.3.\<close>

definition ex_lines :: "line list" where
  "ex_lines =
     [Other ''#pragma once'',
      Other [],
      Define [] [] '' '' ''MAJOR'' '' '' ''1'',
      Define [] [] '' '' ''MINOR'' '' '' ''2'',
      Define [] [] '' '' ''PATCH'' '' '' ''3'',
      Define [] [] '' '' ''DEV'' ''   '' ''1 // A value > 0 indicates a development release'',
      Other []]"

definition major_1 :: line where
  "major_1 = Define [] [] '' '' ''MAJOR'' '' '' ''1''"

definition minor_2 :: line where
  "minor_2 = Define [] [] '' '' ''MINOR'' '' '' ''2''"

definition patch_3 :: line where
  "patch_3 = Define [] [] '' '' ''PATCH'' '' '' ''3''"

text \<open>A definition whose value is no number and has a comment after it.\<close>

definition patch_raw :: line where
  "patch_raw = Define [] [] '' '' ''PATCH'' ''   '' ''3rc1 // dev''"

text \<open>Other spellings the pattern accepts: \<open>    #define  NB_VERSION_MAJOR   1\<close> and
  \<open># define NB_VERSION_MINOR 2\<close>.\<close>

definition major_indented :: line where
  "major_indented = Define ''    '' [] ''  '' ''MAJOR'' ''   '' ''1''"

definition minor_spaced :: line where
  "minor_spaced = Define [] '' '' '' '' ''MINOR'' '' '' ''2''"

text \<open>Lines that are no definition of a version field, some of them close to one.\<close>

definition ex_other_lines :: "line list" where
  "ex_other_lines =
     [Other ''#include <cstdint>'',
      Other ''#define NB_NAMESPACE nanobind'',
      Other ''#define NB_VERSION_CHECK(x) 1'',
      Other ''#define NB_VERSION_ 0'',
      Other ''#defined'',
      Other ''// #define NB_VERSION_MAJOR 7'']"

text \<open>A header with such lines and the three definitions in several spellings.\<close>

definition ex_spelled_lines :: "line list" where
  "ex_spelled_lines =
     ex_other_lines @ [patch_3, Other [], major_indented, Other ''   '', minor_spaced]"

text \<open>A header whose first line is a definition without a value, before the three
  definitions of the version 1.2.3.\<close>

definition ex_header_dev_first :: string where
  "ex_header_dev_first =
     ''#define NB_VERSION_DEV\<newline>#define NB_VERSION_MAJOR 1\<newline>#define NB_VERSION_MINOR 2\<newline>#define NB_VERSION_PATCH 3\<newline>''"

subsection \<open>An invariant of the state\<close>

text \<open>The patterns of the distribution are the declared ones, and so were the patterns
  at every call of the packager.\<close>

definition patterns_ok :: "world \<Rightarrow> bool" where
  "patterns_ok w =
     (package_data w ''nanobind'' = Some manifest
      \<and> list_all (\<lambda>r. snd (snd r) = Some manifest) (packager_runs w))"

section \<open>Properties\<close>

subsection \<open>The two outcomes of finding the build tool\<close>

lemma build_py_not_found:
  assumes "search_path e ''cmake'' = None \<or> search_path e ''cmake'' = Some []"
  shows "NanobindBuildPyCommand_run g e w =
           (Some (SystemExit 1),
            w\<lparr>which_calls := which_calls w @ [''cmake''],
              stderr := stderr w @ ''CMake executable can't be found'' @ [newline]\<rparr>)"
  using assms
  by (auto simp: NanobindBuildPyCommand_run_def shutil_which_def cmake_not_found_def
      print_stderr_def)

lemma build_py_found:
  assumes "search_path e ''cmake'' = Some exe" and "exe \<noteq> []"
  shows "NanobindBuildPyCommand_run g e w =
     (let bd = mkdtemp e ''tmp'' (tmp_count w);
          conf = configure_args g exe bd;
          inst = install_args g exe bd;
          w2 = w\<lparr>which_calls := which_calls w @ [''cmake''], tmp_count := Suc (tmp_count w)\<rparr>
      in if exit_status e conf \<noteq> 0 then
           (Some (CalledProcessError (exit_status e conf) conf),
            w2\<lparr>spawned := spawned w @ [conf], dirs := insert bd (dirs w) - {bd}\<rparr>)
         else if exit_status e inst \<noteq> 0 then
           (Some (CalledProcessError (exit_status e inst) inst),
            w2\<lparr>spawned := spawned w @ [conf, inst], dirs := insert bd (dirs w) - {bd}\<rparr>)
         else
           (None,
            w2\<lparr>spawned := spawned w @ [conf, inst], dirs := insert bd (dirs w) - {bd},
               packager_runs := packager_runs w @
                 [(build_py, package_dir w ''nanobind'', package_data w ''nanobind'')]\<rparr>))"
  using assms
  by (simp add: NanobindBuildPyCommand_run_def shutil_which_def TemporaryDirectory_def
      with_body_def check_call_def cleanup_def packager_def Let_def)

subsection \<open>The examples, evaluated\<close>

lemma ex_header_version: "nanobind_version ex_header = Inr ''1.2.3''"
  by code_simp

lemma ex_this_directory: "abspath ''/home/user'' (dirname ''/repo/setup.py'') = ''/repo''"
  by code_simp

lemma ex_header_path: "join ''/repo'' ''include/nanobind/nanobind.h'' = ''/repo/include/nanobind/nanobind.h''"
  by code_simp

lemma ex_module_body: "module_body ex_env initial_world = Inr (ex_globals, ex_world)"
  by (simp add: module_body_def ex_env_def ex_this_directory ex_header_path ex_header_version
      TemporaryDirectory_def initial_world_def ex_globals_def ex_world_def Let_def)

lemma ex_setup_py: "setup_py ex_env cmds = run_commands ex_globals ex_env cmds ex_dist"
  by (simp add: setup_py_def ex_module_body setup'_def ex_dist_def ex_globals_def)

lemma ex_module_body_variants:
  "module_body ex_env_no_cmake initial_world = Inr (ex_globals, ex_world)"
  "module_body ex_env_install_fails initial_world = Inr (ex_globals, ex_world)"
  "module_body ex_env_configure_fails initial_world = Inr (ex_globals, ex_world)"
  "module_body ex_env_toggle initial_world
     = Inr (ex_globals\<lparr>NB_USE_SUBMODULE_DEPS := ''maybe''\<rparr>, ex_world)"
  by (simp_all add: module_body_def ex_env_no_cmake_def ex_env_install_fails_def
      ex_env_configure_fails_def ex_env_toggle_def ex_env_def ex_this_directory
      ex_header_path ex_header_version TemporaryDirectory_def initial_world_def
      ex_globals_def ex_world_def Let_def)



lemma ex_sdist_then_build:
  "fst (setup_py ex_env [sdist, build_py]) = None
   \<and> spawned (snd (setup_py ex_env [sdist, build_py])) =
       [[''/usr/bin/cmake'', ''-S'', ''/repo'', ''-B'', ''/tmp/tmpY'',
         ''-DNB_PYTHON_INSTALLATION=ON'', ''-DNB_USE_SUBMODULE_DEPS=ON''],
        [''/usr/bin/cmake'', ''--install'', ''/tmp/tmpY'', ''--prefix'', ''/tmp/nanobind_cmake_X'']]
   \<and> packager_runs (snd (setup_py ex_env [sdist, build_py])) =
       [(sdist, Some ''.'', Some manifest), (build_py, Some ''.'', Some manifest)]"
proof -
  have cm: "search_path ex_env ''cmake'' = Some ''/usr/bin/cmake''" by (simp add: ex_env_def)
  have ne: "''/usr/bin/cmake'' \<noteq> []" by simp
  have st: "\<And>args. exit_status ex_env args = 0" by (simp add: ex_env_def)
  have tmp: "mkdtemp ex_env ''tmp'' (Suc 0) = ''/tmp/tmpY''" by (simp add: ex_env_def)
  show ?thesis
    by (simp add: ex_setup_py run_command_def NanobindSdistCommand_run_def packager_def
        build_py_found [OF cm ne] st tmp Let_def ex_dist_def ex_world_def initial_world_def
        configure_args_def install_args_def ex_globals_def os_curdir_def)
qed

subsection \<open>\<open>dict\<close> and the format of the version\<close>

lemma dict_snoc: "dict (ps @ [(k, v)]) = (dict ps)(k \<mapsto> v)"
  by (simp add: dict_def)

lemma dict_Nil: "dict [] = Map.empty"
  by (simp add: dict_def)

lemma last_value_snoc:
  "last_value k (ps @ [(k', v)]) = (if k' = k then Some v else last_value k ps)"
proof (cases "k' = k")
  case True
  then have "filter (\<lambda>p. fst p = k) (ps @ [(k', v)]) = filter (\<lambda>p. fst p = k) ps @ [(k', v)]"
    by simp
  moreover obtain q qs where "filter (\<lambda>p. fst p = k) ps @ [(k', v)] = q # qs"
    by (cases "filter (\<lambda>p. fst p = k) ps @ [(k', v)]") auto
  moreover from this have "last (q # qs) = (k', v)"
    by (metis last_snoc)
  ultimately show ?thesis using True by (simp add: last_value_def)
next
  case False
  then show ?thesis by (simp add: last_value_def)
qed

lemma dict_last_value: "dict ps k = last_value k ps"
proof (induction ps rule: rev_induct)
  case Nil
  show ?case by (simp add: dict_Nil last_value_def)
next
  case (snoc p ps)
  obtain k' v where p: "p = (k', v)" by (cases p)
  show ?case
    unfolding p dict_snoc last_value_snoc using snoc.IH by simp
qed

lemma last_value_None: "last_value k ps = None \<longleftrightarrow> k \<notin> fst ` set ps"
proof -
  have "filter (\<lambda>p. fst p = k) ps = [] \<longleftrightarrow> k \<notin> fst ` set ps"
    by (auto simp: filter_empty_conv)
  then show ?thesis
    by (auto simp: last_value_def split: list.splits)
qed


lemma format_version:
  "format version_format m =
     (case m ''MAJOR'' of None \<Rightarrow> Inl (KeyError ''MAJOR'')
      | Some a \<Rightarrow> (case m ''MINOR'' of None \<Rightarrow> Inl (KeyError ''MINOR'')
         | Some b \<Rightarrow> (case m ''PATCH'' of None \<Rightarrow> Inl (KeyError ''PATCH'')
            | Some c \<Rightarrow> Inr (a @ ''.'' @ b @ ''.'' @ c))))"
  by (simp add: version_format_def split: option.splits)



lemma ex_no_patch_findall:
  "findall None ex_header_no_patch = [(''MAJOR'', ''1''), (''MINOR'', ''2'')]"
  by code_simp

lemma ex_no_patch_version: "nanobind_version ex_header_no_patch = Inl (KeyError ''PATCH'')"
  by code_simp


subsection \<open>What the module body leaves\<close>

lemma module_body_world:
  assumes "module_body e initial_world = Inr (g, w)"
  shows "w = initial_world\<lparr>tmp_count := 1, dirs := {install_dir g}\<rparr>"
  using assms
  by (auto simp: module_body_def TemporaryDirectory_def initial_world_def Let_def
      split: option.splits sum.splits)

lemma module_body_globals:
  assumes "module_body e initial_world = Inr (g, w)"
  shows "NB_USE_SUBMODULE_DEPS g =
           (case environ e ''NB_USE_SUBMODULE_DEPS'' of None \<Rightarrow> ''ON'' | Some v \<Rightarrow> v)"
    and "this_directory g = abspath (getcwd e) (dirname (file_name e))"
  using assms
  by (auto simp: module_body_def TemporaryDirectory_def Let_def
      split: option.splits sum.splits)

subsection \<open>Paths: the current directory and an empty directory name\<close>








subsection \<open>The patterns stay as declared\<close>

lemma run_command_package_data: "package_data (snd (run_command g e c w)) = package_data w"
proof (cases c)
  case sdist
  then show ?thesis
    by (simp add: run_command_def NanobindSdistCommand_run_def packager_def)
next
  case build_py
  show ?thesis
  proof (cases "search_path e ''cmake'' = None \<or> search_path e ''cmake'' = Some []")
    case True
    then show ?thesis
      using build_py by (simp add: run_command_def build_py_not_found)
  next
    case False
    then obtain exe where "search_path e ''cmake'' = Some exe" and "exe \<noteq> []" by auto
    then show ?thesis
      using build_py by (simp add: run_command_def build_py_found Let_def)
  qed
qed

lemma run_command_patterns_ok:
  assumes "patterns_ok w"
  shows "patterns_ok (snd (run_command g e c w))"
proof (cases c)
  case sdist
  with assms show ?thesis
    by (simp add: patterns_ok_def run_command_def NanobindSdistCommand_run_def packager_def)
next
  case build_py
  show ?thesis
  proof (cases "search_path e ''cmake'' = None \<or> search_path e ''cmake'' = Some []")
    case True
    then show ?thesis
      using build_py assms by (simp add: patterns_ok_def run_command_def build_py_not_found)
  next
    case False
    then obtain exe where "search_path e ''cmake'' = Some exe" and "exe \<noteq> []" by auto
    then show ?thesis
      using build_py assms by (simp add: patterns_ok_def run_command_def build_py_found Let_def)
  qed
qed

lemma run_commands_patterns_ok:
  "patterns_ok w \<Longrightarrow> patterns_ok (snd (run_commands g e cs w))"
proof (induction cs arbitrary: w)
  case Nil
  then show ?case by simp
next
  case (Cons c cs)
  from run_command_patterns_ok [OF Cons.prems]
  have ok: "patterns_ok (snd (run_command g e c w))" .
  show ?case
  proof (cases "run_command g e c w")
    case (Pair r w')
    with ok have ok': "patterns_ok w'" by simp
    show ?thesis
    proof (cases r)
      case None
      with Pair Cons.IH [OF ok'] show ?thesis by simp
    next
      case (Some err)
      with Pair ok' show ?thesis by simp
    qed
  qed
qed

lemma setup_py_patterns_ok:
  "list_all (\<lambda>r. snd (snd r) = Some manifest) (packager_runs (snd (setup_py e cmds)))"
proof (cases "module_body e initial_world")
  case (Inl err)
  then have "setup_py e cmds = (Some err, initial_world)" by (simp add: setup_py_def)
  then show ?thesis by (simp add: initial_world_def)
next
  case (Inr gw)
  then obtain g w where gw: "module_body e initial_world = Inr (g, w)" by (cases gw) auto
  from module_body_world [OF gw]
  have "patterns_ok (w\<lparr>package_dir := [''nanobind'' \<mapsto> install_dir g],
          package_data := [''nanobind'' \<mapsto> manifest]\<rparr>)"
    by (simp add: patterns_ok_def initial_world_def)
  from run_commands_patterns_ok [OF this] show ?thesis
    by (simp add: setup_py_def gw setup'_def patterns_ok_def)
qed

subsection \<open>The pattern matches without backtracking\<close>

lemma star_first: "k (dropWhile p s) = Some r \<Longrightarrow> star p k s = Some r"
  by (induction s) auto

lemma star_det:
  assumes "\<And>c cs. p c \<Longrightarrow> k (c # cs) = None"
  shows "star p k s = k (dropWhile p s)"
  using assms by (induction s) (auto split: option.splits)

lemma many1_det:
  assumes "\<And>c cs. p c \<Longrightarrow> k (c # cs) = None"
  shows "many1 p k s = (if takeWhile p s = [] then None else k (dropWhile p s))"
proof (cases s)
  case Nil
  then show ?thesis by simp
next
  case (Cons c cs)
  then show ?thesis using star_det [of p k cs, OF assms] by simp
qed

lemma many1_first:
  assumes "k (dropWhile p s) = Some r" and "takeWhile p s \<noteq> []"
  shows "many1 p k s = Some r"
proof (cases s)
  case Nil
  with assms(2) show ?thesis by simp
next
  case (Cons c cs)
  with assms(2) have pc: "p c" by (auto split: if_splits)
  with assms(1) Cons have "k (dropWhile p cs) = Some r" by simp
  then have "star p k cs = Some r" by (rule star_first)
  with pc Cons show ?thesis by simp
qed

lemma many1_none: "takeWhile p s = [] \<Longrightarrow> many1 p k s = None"
  by (cases s) (auto split: if_splits)

lemma lit_take:
  "lit l k s = (if take (length l) s = l then k (drop (length l) s) else None)"
  by (induction l k s rule: lit.induct) auto

lemma group_text_dropWhile: "group_text s (dropWhile p s) = takeWhile p s"
proof -
  have "length s - length (dropWhile p s) = length (takeWhile p s)"
    by (metis add_diff_cancel_right' length_append takeWhile_dropWhile_id)
  then show ?thesis
    by (metis group_text_def append_eq_conv_conj takeWhile_dropWhile_id)
qed

lemma upper_not_space: "is_upper c \<Longrightarrow> \<not> is_space c"
  by (auto simp: is_space_def is_upper_def Let_def)

lemma newline_is_space: "is_space newline"
  by (simp add: is_space_def newline_def)

lemma eol_dropWhile: "eol (dropWhile not_newline s)"
  by (induction s) (auto simp: eol_def not_newline_def)

lemma group_tail:
  "star not_newline (\<lambda>e2. if eol e2 then Some (a, group_text g2 e2, e2) else None) g2
     = Some (a, takeWhile not_newline g2, dropWhile not_newline g2)"
  by (rule star_first) (simp add: eol_dropWhile group_text_dropWhile)

lemma group_value:
  "many1 is_space
     (\<lambda>g2. star not_newline (\<lambda>e2. if eol e2 then Some (a, group_text g2 e2, e2) else None) g2) e1
   = (if takeWhile is_space e1 = [] then None
      else Some (a, takeWhile not_newline (dropWhile is_space e1),
                 dropWhile not_newline (dropWhile is_space e1)))"
proof (cases "takeWhile is_space e1 = []")
  case True
  then show ?thesis by (simp add: many1_none)
next
  case False
  then show ?thesis
    by (simp add: many1_first [OF _ False] group_tail)
qed

lemma group_key:
  "many1 is_upper (\<lambda>e1. many1 is_space
     (\<lambda>g2. star not_newline
        (\<lambda>e2. if eol e2 then Some (group_text g1 e1, group_text g2 e2, e2) else None) g2) e1) g1
   = (if takeWhile is_upper g1 = [] then None
      else if takeWhile is_space (dropWhile is_upper g1) = [] then None
      else Some (takeWhile is_upper g1,
                 takeWhile not_newline (dropWhile is_space (dropWhile is_upper g1)),
                 dropWhile not_newline (dropWhile is_space (dropWhile is_upper g1))))"
proof -
  have fail: "\<And>c cs. is_upper c \<Longrightarrow> many1 is_space
     (\<lambda>g2. star not_newline
        (\<lambda>e2. if eol e2 then Some (group_text g1 (c # cs), group_text g2 e2, e2) else None) g2)
       (c # cs) = None"
    by (simp add: upper_not_space)
  show ?thesis
    by (subst many1_det, rule fail, assumption)
       (simp add: group_value group_text_dropWhile)
qed

lemma star_space_lit:
  assumes "\<not> is_space x"
  shows "star is_space (lit (x # xs) k) s = lit (x # xs) k (dropWhile is_space s)"
proof (rule star_det)
  fix c cs
  assume "is_space c"
  with assms have "c \<noteq> x" by auto
  then show "lit (x # xs) k (c # cs) = None" by simp
qed

lemma many1_space_lit:
  assumes "\<not> is_space x"
  shows "many1 is_space (lit (x # xs) k) s =
           (if takeWhile is_space s = [] then None else lit (x # xs) k (dropWhile is_space s))"
proof (rule many1_det)
  fix c cs
  assume "is_space c"
  with assms have "c \<noteq> x" by auto
  then show "lit (x # xs) k (c # cs) = None" by simp
qed

lemma not_space_literals:
  "\<not> is_space CHR ''#''" "\<not> is_space CHR ''d''" "\<not> is_space CHR ''N''"
  by (simp_all add: is_space_def)

lemma VERSION_REGEX_scan: "VERSION_REGEX prev s = (if bol prev then scan s else None)"
proof (cases "bol prev")
  case False
  then show ?thesis by (simp add: VERSION_REGEX_def)
next
  case True
  have len: "length ''#'' = 1" "length ''define'' = 6" "length ''NB_VERSION_'' = 11"
    by simp_all
  show ?thesis
    unfolding VERSION_REGEX_def scan_def Let_def
    by (simp only: True if_True star_space_lit [OF not_space_literals(1)]
          star_space_lit [OF not_space_literals(2)] many1_space_lit [OF not_space_literals(3)]
          lit_take len group_key)
qed

subsection \<open>\<open>findall\<close> at the end of a line\<close>

lemma scan_skip_space: "is_space c \<Longrightarrow> scan (c # s) = scan s"
  by (simp add: scan_def)

lemma scan_skip_spaces: "list_all is_space xs \<Longrightarrow> scan (xs @ s) = scan s"
  by (induction xs) (simp_all add: scan_skip_space)

lemma scan_Nil: "scan [] = None"
  by (simp add: scan_def)

lemma scan_rest:
  assumes "scan s = Some (a, b, r)"
  shows "eol r" and "length r < length s"
proof -
  from assms have "r = dropWhile not_newline
      (dropWhile is_space (dropWhile is_upper (drop 11 (dropWhile is_space
         (drop 6 (dropWhile is_space (drop 1 (dropWhile is_space s))))))))"
    by (simp add: scan_def Let_def split: if_splits)
  then show "eol r" by (simp add: eol_dropWhile)
  from assms have "VERSION_REGEX None s = Some (a, b, r)"
    by (simp add: VERSION_REGEX_scan bol_def)
  then show "length r < length s" by (rule VERSION_REGEX_rest)
qed

lemma findall_Nil: "findall p [] = []"
  by (subst findall.simps) (simp add: VERSION_REGEX_scan scan_Nil)

lemma findall_no_bol: "\<not> bol p \<Longrightarrow> findall p (c # cs) = findall (Some c) cs"
  by (subst findall.simps) (simp add: VERSION_REGEX_scan)

lemma findall_bol_none:
  "bol p \<Longrightarrow> scan (c # cs) = None \<Longrightarrow> findall p (c # cs) = findall (Some c) cs"
  by (subst findall.simps) (simp add: VERSION_REGEX_scan)

lemma findall_bol_some:
  "bol p \<Longrightarrow> scan s = Some (a, b, r) \<Longrightarrow>
     \<exists>q. findall p s = (a, b) # findall (Some q) r"
proof -
  assume "bol p" and "scan s = Some (a, b, r)"
  then have "findall p s =
      (a, b) # findall (Some (last (take (length s - length r) s))) r"
    by (subst findall.simps) (simp add: VERSION_REGEX_scan)
  then show ?thesis ..
qed

lemma bol_newline: "bol (Some newline)"
  by (simp add: bol_def)

lemma findall_eol: "eol s \<Longrightarrow> findall p s = findall q s"
proof (induction "length s" arbitrary: s p q rule: less_induct)
  case less
  show ?case
  proof (cases s)
    case Nil
    then show ?thesis by (simp add: findall_Nil)
  next
    case (Cons c R)
    with less.prems have c: "c = newline" by (simp add: eol_def)
    have restart: "findall p' (newline # R) = findall (Some newline) R" for p'
    proof (cases "bol p'")
      case False
      then show ?thesis by (rule findall_no_bol)
    next
      case True
      have sk: "scan (newline # R) = scan R"
        by (rule scan_skip_space) (rule newline_is_space)
      show ?thesis
      proof (cases "scan R")
        case None
        with sk True show ?thesis by (simp add: findall_bol_none)
      next
        case (Some abr)
        obtain a b r where abr: "abr = (a, b, r)" by (cases abr)
        from Some abr have sR: "scan R = Some (a, b, r)" by simp
        with sk have sN: "scan (newline # R) = Some (a, b, r)" by simp
        from findall_bol_some [OF True sN] obtain q1
          where 1: "findall p' (newline # R) = (a, b) # findall (Some q1) r" ..
        from findall_bol_some [OF bol_newline sR] obtain q2
          where 2: "findall (Some newline) R = (a, b) # findall (Some q2) r" ..
        from scan_rest [OF sR] have "eol r" and "length r < length R" .
        with Cons have "length r < length s" by simp
        from less.hyps [OF this \<open>eol r\<close>] have "findall (Some q1) r = findall (Some q2) r" .
        with 1 2 show ?thesis by simp
      qed
    qed
    from restart [of p] restart [of q] Cons c show ?thesis by simp
  qed
qed

lemma findall_newline: "findall p (newline # R) = findall (Some newline) R"
proof -
  have "eol (newline # R)" by (simp add: eol_def)
  then have "findall p (newline # R) = findall (Some CHR ''x'') (newline # R)"
    by (rule findall_eol)
  also have "\<dots> = findall (Some newline) R"
    by (rule findall_no_bol) (simp add: bol_def newline_def)
  finally show ?thesis .
qed

lemma findall_walk:
  assumes "eol rest" and "list_all not_newline t" and "c \<noteq> newline"
  shows "findall (Some c) (t @ rest) = findall q rest"
  using assms(2,3)
proof (induction t arbitrary: c)
  case Nil
  from assms(1) show ?case by (simp add: findall_eol [of rest "Some c" q])
next
  case (Cons d t)
  from Cons.prems(1) have t: "list_all not_newline t" by simp
  from Cons.prems(1) have d: "d \<noteq> newline" by (simp add: not_newline_def)
  from Cons.prems have "\<not> bol (Some c)" by (simp add: bol_def)
  then have "findall (Some c) ((d # t) @ rest) = findall (Some d) (t @ rest)"
    by (simp add: findall_no_bol)
  with Cons.IH [OF t d] show ?case by simp
qed

subsection \<open>\<open>findall\<close> on a header made of lines\<close>

lemma takeWhile_exact:
  assumes "list_all P xs" and "takeWhile P ys = []"
  shows "takeWhile P (xs @ ys) = xs" and "dropWhile P (xs @ ys) = ys"
proof -
  from assms(1) have all: "\<And>x. x \<in> set xs \<Longrightarrow> P x" by (simp add: list_all_iff)
  from assms(2) have d: "dropWhile P ys = ys"
    by (metis append_Nil takeWhile_dropWhile_id)
  show "takeWhile P (xs @ ys) = xs"
    using takeWhile_append2 [of xs P ys] all assms(2) by simp
  show "dropWhile P (xs @ ys) = ys"
    using dropWhile_append2 [of xs P ys] all d by simp
qed

lemma eol_takeWhile: "eol rest \<Longrightarrow> takeWhile not_newline rest = []"
  by (cases rest) (simp_all add: eol_def not_newline_def)

lemma scan_define:
  assumes "well_formed (Define indent s1 s2 k gap v)" and "eol rest"
  shows "scan (render (Define indent s1 s2 k gap v) @ rest) = Some (k, v, rest)"
proof -
  define Z where "Z = k @ gap @ v @ rest"
  define Y where "Y = s2 @ ''NB_VERSION_'' @ Z"
  define X where "X = s1 @ ''define'' @ Y"
  have rendered: "render (Define indent s1 s2 k gap v) @ rest = indent @ ''#'' @ X"
    by (simp add: X_def Y_def Z_def)
  from assms(1) have ind: "list_all blank indent" and s1: "list_all blank s1"
    and s2: "s2 \<noteq> []" "list_all blank s2"
    and k: "k \<noteq> []" "list_all is_upper k"
    and gap: "gap \<noteq> []" "list_all blank gap"
    and v: "list_all not_newline v" "takeWhile is_space v = []" "v \<noteq> []"
    by (auto split: list.splits)
  have sp: "list_all blank xs \<Longrightarrow> list_all is_space xs" for xs
    by (simp add: blank_def list_all_iff)
  from gap obtain g gs' where g: "gap = g # gs'" "is_space g"
    by (cases gap) (auto simp: blank_def)
  then have "\<not> is_upper g" using upper_not_space by blast
  then have tu: "takeWhile is_upper (gap @ v @ rest) = []" using g by simp
  from v(2,3) have ts: "takeWhile is_space (v @ rest) = []"
    by (cases v) (auto split: if_splits)
  from assms(2) have tn: "takeWhile not_newline rest = []" by (rule eol_takeWhile)
  have th: "takeWhile is_space (''#'' @ X) = []"
    and td: "takeWhile is_space (''define'' @ Y) = []"
    and tv: "takeWhile is_space (''NB_VERSION_'' @ Z) = []"
    by (simp_all add: not_space_literals)
  have a: "dropWhile is_space (indent @ ''#'' @ X) = ''#'' @ X"
    using takeWhile_exact(2) [OF sp [OF ind] th] .
  have t1: "take 1 (''#'' @ X) = ''#''" and d1: "drop 1 (''#'' @ X) = X" by simp_all
  have b: "dropWhile is_space X = ''define'' @ Y"
    unfolding X_def using takeWhile_exact(2) [OF sp [OF s1] td] .
  have t6: "take 6 (''define'' @ Y) = ''define''" and d6: "drop 6 (''define'' @ Y) = Y"
    by simp_all
  have c: "takeWhile is_space Y = s2" "dropWhile is_space Y = ''NB_VERSION_'' @ Z"
    unfolding Y_def using takeWhile_exact [OF sp [OF s2(2)] tv] .
  have t11: "take 11 (''NB_VERSION_'' @ Z) = ''NB_VERSION_''"
    and d11: "drop 11 (''NB_VERSION_'' @ Z) = Z"
    by simp_all
  have 1: "takeWhile is_upper Z = k" "dropWhile is_upper Z = gap @ v @ rest"
    unfolding Z_def using takeWhile_exact [OF k(2) tu] .
  have 2: "takeWhile is_space (gap @ v @ rest) = gap"
    "dropWhile is_space (gap @ v @ rest) = v @ rest"
    using takeWhile_exact [OF sp [OF gap(2)] ts] .
  have 3: "takeWhile not_newline (v @ rest) = v"
    "dropWhile not_newline (v @ rest) = rest"
    using takeWhile_exact [OF v(1) tn] .
  show ?thesis
    unfolding rendered scan_def Let_def a t1 d1 b t6 d6 c t11 d11 1 2 3
    by (simp only: s2(1) k(1) gap(1) if_True if_False simp_thms)
qed

lemma dropWhile_append_nonempty:
  "dropWhile P xs \<noteq> [] \<Longrightarrow> dropWhile P (xs @ ys) = dropWhile P xs @ ys"
proof -
  assume "dropWhile P xs \<noteq> []"
  then obtain x where "x \<in> set xs" and "\<not> P x"
    by (auto simp: dropWhile_eq_Nil_conv)
  then show ?thesis by (rule dropWhile_append1)
qed

lemma take_append_eol:
  assumes "list_all not_newline l" and "eol rest" and "take (length l) d \<noteq> l"
  shows "take (length l) (d @ rest) \<noteq> l"
proof
  assume eq: "take (length l) (d @ rest) = l"
  show False
  proof (cases "length l \<le> length d")
    case True
    with eq assms(3) show False by simp
  next
    case False
    then have lt: "length d < length l" by simp
    show False
    proof (cases rest)
      case Nil
      with eq lt show False by (metis append_Nil2 length_take min.absorb2 less_imp_le_nat not_less_iff_gr_or_eq take_all)
    next
      case (Cons c R)
      with assms(2) have c: "c = newline" by (simp add: eol_def)
      from eq have "l ! length d = (d @ rest) ! length d"
        using lt by (metis nth_take)
      with Cons c have "l ! length d = newline" by simp
      with lt have "newline \<in> set l" by (metis nth_mem)
      with assms(1) show False by (auto simp: list_all_iff not_newline_def)
    qed
  qed
qed

lemma take_literal_eol:
  assumes "eol rest"
  shows "take 6 d \<noteq> ''define'' \<Longrightarrow> take 6 (d @ rest) \<noteq> ''define''"
    and "take 11 d \<noteq> ''NB_VERSION_'' \<Longrightarrow> take 11 (d @ rest) \<noteq> ''NB_VERSION_''"
proof -
  have l6: "length ''define'' = 6" and l11: "length ''NB_VERSION_'' = 11" by simp_all
  have n6: "list_all not_newline ''define''" and n11: "list_all not_newline ''NB_VERSION_''"
    by (simp_all add: not_newline_def newline_def)
  from take_append_eol [OF n6 assms, of d, unfolded l6]
  show "take 6 d \<noteq> ''define'' \<Longrightarrow> take 6 (d @ rest) \<noteq> ''define''" .
  from take_append_eol [OF n11 assms, of d, unfolded l11]
  show "take 11 d \<noteq> ''NB_VERSION_'' \<Longrightarrow> take 11 (d @ rest) \<noteq> ''NB_VERSION_''" .
qed

lemma scan_other:
  assumes wf: "well_formed (Other t)" and nb: "dropWhile is_space t \<noteq> []" and e: "eol rest"
  shows "scan (t @ rest) = None"
proof -
  define a where "a = dropWhile is_space t"
  define d where "d = dropWhile is_space (drop 1 a)"
  define m where "m = drop 6 d"
  define n where "n = dropWhile is_space m"
  define g1 where "g1 = drop 11 n"
  define e1 where "e1 = dropWhile is_upper g1"
  from nb have a: "a \<noteq> []" by (simp add: a_def)
  have A: "dropWhile is_space (t @ rest) = a @ rest"
    unfolding a_def using nb by (rule dropWhile_append_nonempty)
  from a have t1: "take 1 (a @ rest) = take 1 a" and d1: "drop 1 (a @ rest) = drop 1 a @ rest"
    by (cases a; simp)+
  have first: "xs \<noteq> [] \<Longrightarrow> takeWhile P xs = [] \<Longrightarrow> takeWhile P (xs @ rest) = []" for P xs
    by (cases xs) (auto split: if_splits)
  from wf have "other_text t" by simp
  then have "a = [] \<or> take 1 a \<noteq> ''#'' \<or>
       (d \<noteq> [] \<and> (take 6 d \<noteq> ''define'' \<or>
          (m \<noteq> [] \<and> (takeWhile is_space m = [] \<or>
             (n \<noteq> [] \<and> (take 11 n \<noteq> ''NB_VERSION_'' \<or>
                (g1 \<noteq> [] \<and> (takeWhile is_upper g1 = [] \<or>
                   (e1 \<noteq> [] \<and> takeWhile is_space e1 = [])))))))))"
    unfolding other_text_def Let_def a_def d_def m_def n_def g1_def e1_def .
  with a have other:
    "take 1 a \<noteq> ''#'' \<or>
       (d \<noteq> [] \<and> (take 6 d \<noteq> ''define'' \<or>
          (m \<noteq> [] \<and> (takeWhile is_space m = [] \<or>
             (n \<noteq> [] \<and> (take 11 n \<noteq> ''NB_VERSION_'' \<or>
                (g1 \<noteq> [] \<and> (takeWhile is_upper g1 = [] \<or>
                   (e1 \<noteq> [] \<and> takeWhile is_space e1 = [])))))))))"
    by blast
  show ?thesis
  proof (cases "take 1 a = ''#''")
    case False
    then show ?thesis
      unfolding scan_def Let_def A t1 by (simp only: if_False)
  next
    case hash: True
    with other have d: "d \<noteq> []"
      and rest_d: "take 6 d \<noteq> ''define'' \<or>
          (m \<noteq> [] \<and> (takeWhile is_space m = [] \<or>
             (n \<noteq> [] \<and> (take 11 n \<noteq> ''NB_VERSION_'' \<or>
                (g1 \<noteq> [] \<and> (takeWhile is_upper g1 = [] \<or>
                   (e1 \<noteq> [] \<and> takeWhile is_space e1 = [])))))))"
      by blast+
    have D: "dropWhile is_space (drop 1 a @ rest) = d @ rest"
      unfolding d_def using d [unfolded d_def] by (rule dropWhile_append_nonempty)
    show ?thesis
    proof (cases "take 6 d = ''define''")
      case False
      from take_literal_eol(1) [OF e False]
      have "take 6 (d @ rest) \<noteq> ''define''" .
      then show ?thesis
        unfolding scan_def Let_def A t1 d1 D by (simp only: hash if_True if_False simp_thms)
    next
      case is_define: True
      with rest_d have m: "m \<noteq> []"
        and rest_m: "takeWhile is_space m = [] \<or>
             (n \<noteq> [] \<and> (take 11 n \<noteq> ''NB_VERSION_'' \<or>
                (g1 \<noteq> [] \<and> (takeWhile is_upper g1 = [] \<or>
                   (e1 \<noteq> [] \<and> takeWhile is_space e1 = [])))))"
        by blast+
      from is_define have "length (take 6 d) = 6" by simp
      then have ld: "6 \<le> length d" by simp
      then have t6: "take 6 (d @ rest) = ''define''" and d6: "drop 6 (d @ rest) = m @ rest"
        using is_define by (simp_all add: m_def)
      show ?thesis
      proof (cases "takeWhile is_space m = []")
        case True
        with m have "takeWhile is_space (m @ rest) = []" by (rule first)
        then show ?thesis
          unfolding scan_def Let_def A t1 d1 D d6
          by (simp only: hash t6 if_True if_False simp_thms)
      next
        case False
        with rest_m have n: "n \<noteq> []"
          and rest_n: "take 11 n \<noteq> ''NB_VERSION_'' \<or>
                (g1 \<noteq> [] \<and> (takeWhile is_upper g1 = [] \<or>
                   (e1 \<noteq> [] \<and> takeWhile is_space e1 = [])))"
          by blast+
        have N: "dropWhile is_space (m @ rest) = n @ rest"
          unfolding n_def using n [unfolded n_def] by (rule dropWhile_append_nonempty)
        show ?thesis
        proof (cases "take 11 n = ''NB_VERSION_''")
          case False
          from take_literal_eol(2) [OF e False]
          have "take 11 (n @ rest) \<noteq> ''NB_VERSION_''" .
          then show ?thesis
            unfolding scan_def Let_def A t1 d1 D d6 N
            by (simp only: hash t6 if_True if_False if_cancel simp_thms)
        next
          case is_version: True
          with rest_n have g1: "g1 \<noteq> []"
            and rest_g: "takeWhile is_upper g1 = [] \<or>
                   (e1 \<noteq> [] \<and> takeWhile is_space e1 = [])"
            by blast+
          from is_version have "length (take 11 n) = 11" by simp
          then have "11 \<le> length n" by simp
          then have t11: "take 11 (n @ rest) = ''NB_VERSION_''"
            and d11: "drop 11 (n @ rest) = g1 @ rest"
            using is_version by (simp_all add: g1_def)
          show ?thesis
          proof (cases "takeWhile is_upper g1 = []")
            case True
            with g1 have "takeWhile is_upper (g1 @ rest) = []" by (rule first)
            then show ?thesis
              unfolding scan_def Let_def A t1 d1 D d6 N d11
              by (simp only: hash t6 t11 if_True if_False if_cancel simp_thms)
          next
            case False
            with rest_g have e1: "e1 \<noteq> []" and ts: "takeWhile is_space e1 = []" by blast+
            have E: "dropWhile is_upper (g1 @ rest) = e1 @ rest"
              unfolding e1_def using e1 [unfolded e1_def] by (rule dropWhile_append_nonempty)
            from e1 ts have "takeWhile is_space (e1 @ rest) = []" by (rule first)
            then show ?thesis
              unfolding scan_def Let_def A t1 d1 D d6 N d11 E
              by (simp only: hash t6 t11 if_True if_False if_cancel simp_thms)
          qed
        qed
      qed
    qed
  qed
qed

lemma line_step:
  assumes b: "bol prev" and wf: "well_formed l" and e: "eol rest"
  shows "findall prev (render l @ rest) = definitions l @ findall q rest"
proof (cases l)
  case (Define indent s1 s2 k gap v)
  from scan_define [OF wf [unfolded Define] e]
  have "scan (render l @ rest) = Some (k, v, rest)" by (simp add: Define)
  from findall_bol_some [OF b this] obtain q' where
    "findall prev (render l @ rest) = (k, v) # findall (Some q') rest" ..
  with findall_eol [OF e, of "Some q'" q] show ?thesis by (simp add: Define)
next
  case (Other t)
  from wf Other have nn: "list_all not_newline t" by simp
  show ?thesis
  proof (cases t)
    case Nil
    with Other findall_eol [OF e, of prev q] show ?thesis by simp
  next
    case (Cons c t')
    from nn Cons have c: "c \<noteq> newline" and t': "list_all not_newline t'"
      by (simp_all add: not_newline_def)
    note walk = findall_walk [OF e t' c, of q]
    show ?thesis
    proof (cases "dropWhile is_space t = []")
      case False
      from scan_other [OF wf [unfolded Other] False e]
      have "scan (c # t' @ rest) = None" by (simp add: Cons)
      from findall_bol_none [OF b this] walk show ?thesis by (simp add: Other Cons)
    next
      case True
      then have "list_all is_space t" by (simp add: dropWhile_eq_Nil_conv list_all_iff)
      then have sk: "scan (t @ rest) = scan rest" by (rule scan_skip_spaces)
      show ?thesis
      proof (cases "scan rest")
        case None
        with sk have "scan (c # t' @ rest) = None" by (simp add: Cons)
        from findall_bol_none [OF b this] walk show ?thesis by (simp add: Other Cons)
      next
        case (Some abr)
        obtain x y r where abr: "abr = (x, y, r)" by (cases abr)
        from Some abr have sR: "scan rest = Some (x, y, r)" by simp
        with sk have sT: "scan (t @ rest) = Some (x, y, r)" by simp
        from findall_bol_some [OF b sT] obtain q1
          where 1: "findall prev (t @ rest) = (x, y) # findall (Some q1) r" ..
        have "bol None" by (simp add: bol_def)
        from findall_bol_some [OF this sR] obtain q2
          where 2: "findall None rest = (x, y) # findall (Some q2) r" ..
        from scan_rest(1) [OF sR] have "eol r" .
        then have "findall (Some q1) r = findall (Some q2) r" by (rule findall_eol)
        with 1 2 have "findall prev (t @ rest) = findall None rest" by simp
        also have "\<dots> = findall q rest" using e by (rule findall_eol)
        finally show ?thesis by (simp add: Other)
      qed
    qed
  qed
qed

lemma findall_lines:
  assumes "list_all well_formed ls" and "bol prev"
  shows "findall prev (join_lines (map render ls)) = concat (map definitions ls)"
  using assms
proof (induction ls arbitrary: prev)
  case Nil
  then show ?case by (simp add: findall_Nil)
next
  case (Cons l ls)
  from Cons.prems have wf: "well_formed l" and wfs: "list_all well_formed ls" by simp_all
  show ?case
  proof (cases ls)
    case Nil
    have "eol []" by (simp add: eol_def)
    from line_step [OF Cons.prems(2) wf this, of None] show ?thesis
      by (simp add: Nil findall_Nil)
  next
    case (Cons l' ls')
    let ?J = "join_lines (map render ls)"
    have "eol (newline # ?J)" by (simp add: eol_def)
    from line_step [OF Cons.prems(2) wf this, of None]
    have "findall prev (render l @ newline # ?J) = definitions l @ findall None (newline # ?J)" .
    also have "findall None (newline # ?J) = findall (Some newline) ?J" by (rule findall_newline)
    also have "\<dots> = concat (map definitions ls)"
      using wfs bol_newline by (rule Cons.IH)
    finally show ?thesis by (simp add: Cons)
  qed
qed

lemma findall_header_text:
  "list_all well_formed ls \<Longrightarrow> findall None (header_text ls) = concat (map definitions ls)"
  using findall_lines [of ls None] by (simp add: header_text_def bol_def)

lemma last_value_unique:
  assumes "(k, v) \<in> set ps" and "\<And>v'. (k, v') \<in> set ps \<Longrightarrow> v' = v"
  shows "last_value k ps = Some v"
proof -
  let ?f = "filter (\<lambda>p. fst p = k) ps"
  from assms(1) have "(k, v) \<in> set ?f" by simp
  then have ne: "?f \<noteq> []" by (cases ?f) simp_all
  then have "last ?f \<in> set ?f" by (rule last_in_set)
  then have "fst (last ?f) = k" and "last ?f \<in> set ps" by simp_all
  then have "(k, snd (last ?f)) \<in> set ps" by (metis prod.collapse)
  from assms(2) [OF this] have "snd (last ?f) = v" .
  with ne show ?thesis by (cases ?f) (simp_all add: last_value_def)
qed

lemma ex_lines_text: "header_text ex_lines = ex_header"
  by code_simp

lemma ex_lines_well_formed: "list_all well_formed ex_lines"
  by code_simp

lemma ex_orders_well_formed:
  "list_all well_formed [major_1, minor_2, patch_3]"
  "list_all well_formed [major_1, patch_3, minor_2]"
  "list_all well_formed [minor_2, major_1, patch_3]"
  "list_all well_formed [minor_2, patch_3, major_1]"
  "list_all well_formed [patch_3, major_1, minor_2]"
  "list_all well_formed [patch_3, minor_2, major_1]"
  by code_simp+

lemma ex_orders_fields:
  "set (filter version_field (concat (map definitions [major_1, minor_2, patch_3])))
     = {(''MAJOR'', ''1''), (''MINOR'', ''2''), (''PATCH'', ''3'')}"
  "set (filter version_field (concat (map definitions [major_1, patch_3, minor_2])))
     = {(''MAJOR'', ''1''), (''MINOR'', ''2''), (''PATCH'', ''3'')}"
  "set (filter version_field (concat (map definitions [minor_2, major_1, patch_3])))
     = {(''MAJOR'', ''1''), (''MINOR'', ''2''), (''PATCH'', ''3'')}"
  "set (filter version_field (concat (map definitions [minor_2, patch_3, major_1])))
     = {(''MAJOR'', ''1''), (''MINOR'', ''2''), (''PATCH'', ''3'')}"
  "set (filter version_field (concat (map definitions [patch_3, major_1, minor_2])))
     = {(''MAJOR'', ''1''), (''MINOR'', ''2''), (''PATCH'', ''3'')}"
  "set (filter version_field (concat (map definitions [patch_3, minor_2, major_1])))
     = {(''MAJOR'', ''1''), (''MINOR'', ''2''), (''PATCH'', ''3'')}"
  by code_simp+

lemma ex_raw_well_formed: "list_all well_formed [patch_raw, major_1, Other [], minor_2]"
  by code_simp

lemma ex_raw_fields:
  "set (filter version_field (concat (map definitions [patch_raw, major_1, Other [], minor_2])))
     = {(''MAJOR'', ''1''), (''MINOR'', ''2''), (''PATCH'', ''3rc1 // dev'')}"
  by code_simp

lemma ex_spelled_well_formed: "list_all well_formed ex_spelled_lines"
  by code_simp

lemma ex_spelled_fields:
  "set (filter version_field (concat (map definitions ex_spelled_lines)))
     = {(''MAJOR'', ''1''), (''MINOR'', ''2''), (''PATCH'', ''3'')}"
  by code_simp

lemma ex_spelled_text:
  "header_text [major_indented, minor_spaced] =
     ''    #define  NB_VERSION_MAJOR   1\<newline># define NB_VERSION_MINOR 2''"
  by code_simp

lemma ex_lines_fields:
  "set (filter version_field (concat (map definitions ex_lines)))
     = {(''MAJOR'', ''1''), (''MINOR'', ''2''), (''PATCH'', ''3'')}"
  by code_simp


section \<open>The claims\<close>

subsection \<open>C1: the source distribution\<close>




subsection \<open>C2: a version field is missing\<close>

text \<open>
  C2: when \<open>findall\<close> finds no definition of one of the fields \<open>MAJOR\<close>, \<open>MINOR\<close>,
  \<open>PATCH\<close> in the header, \<open>format\<close> raises \<open>KeyError\<close> for a missing field (the first
  of the three that is missing), there is no version string, and the script ends with
  that error in the module body: in the state it started in, with no subprocess started,
  the build tool not resolved, no temporary directory created and the packager not
  called, whatever the commands are.
\<close>

theorem missing_field_fails_at_load:
  assumes "files e (header_path e) = Some text"
    and "k = ''MAJOR'' \<or> k = ''MINOR'' \<or> k = ''PATCH''"
    and "k \<notin> fst ` set (findall None text)"
  shows "\<exists>k'. (k' = ''MAJOR'' \<or> k' = ''MINOR'' \<or> k' = ''PATCH'')
           \<and> k' \<notin> fst ` set (findall None text)
           \<and> nanobind_version text = Inl (KeyError k')
           \<and> setup_py e cmds = (Some (KeyError k'), initial_world)
           \<and> spawned (snd (setup_py e cmds)) = []
           \<and> which_calls (snd (setup_py e cmds)) = []
           \<and> dirs (snd (setup_py e cmds)) = {}
           \<and> packager_runs (snd (setup_py e cmds)) = []"
proof -
  let ?m = "matches text"
  have none: "\<And>f. ?m f = None \<longleftrightarrow> f \<notin> fst ` set (findall None text)"
    by (simp add: matches_def dict_last_value last_value_None)
  from assms(3) have "?m k = None" by (simp add: none)
  with assms(2) have km: "?m ''MAJOR'' = None \<or> ?m ''MINOR'' = None \<or> ?m ''PATCH'' = None"
    by (elim disjE) simp_all
  define k' where "k' =
     (if ?m ''MAJOR'' = None then ''MAJOR'' else if ?m ''MINOR'' = None then ''MINOR'' else ''PATCH'')"
  have k'1: "k' = ''MAJOR'' \<or> k' = ''MINOR'' \<or> k' = ''PATCH''"
    by (simp add: k'_def)
  have k'2: "?m k' = None \<and> nanobind_version text = Inl (KeyError k')"
  proof (cases "?m ''MAJOR'' = None")
    case True
    then show ?thesis by (simp add: k'_def nanobind_version_def format_version)
  next
    case major: False
    show ?thesis
    proof (cases "?m ''MINOR'' = None")
      case True
      with major show ?thesis
        by (auto simp: k'_def nanobind_version_def format_version)
    next
      case minor: False
      with major km have "?m ''PATCH'' = None" by auto
      with major minor show ?thesis
        by (auto simp: k'_def nanobind_version_def format_version)
    qed
  qed
  then have k'3: "k' \<notin> fst ` set (findall None text)" by (simp add: none)
  from k'2 have v: "nanobind_version text = Inl (KeyError k')" ..
  have mb: "module_body e initial_world = Inl (KeyError k')"
    using assms(1) v by (simp add: module_body_def header_path_def Let_def)
  have sp: "setup_py e cmds = (Some (KeyError k'), initial_world)"
    by (simp add: setup_py_def mb)
  have "spawned (snd (setup_py e cmds)) = [] \<and> which_calls (snd (setup_py e cmds)) = []
      \<and> dirs (snd (setup_py e cmds)) = {} \<and> packager_runs (snd (setup_py e cmds)) = []"
    unfolding sp by (simp add: initial_world_def)
  with k'1 k'3 v sp
  have "(k' = ''MAJOR'' \<or> k' = ''MINOR'' \<or> k' = ''PATCH'')
           \<and> k' \<notin> fst ` set (findall None text)
           \<and> nanobind_version text = Inl (KeyError k')
           \<and> setup_py e cmds = (Some (KeyError k'), initial_world)
           \<and> spawned (snd (setup_py e cmds)) = []
           \<and> which_calls (snd (setup_py e cmds)) = []
           \<and> dirs (snd (setup_py e cmds)) = {}
           \<and> packager_runs (snd (setup_py e cmds)) = []"
    by (intro conjI) simp_all
  then show ?thesis by (rule exI)
qed

theorem missing_field_fails_at_load_witness:
  "files ex_env_no_patch (header_path ex_env_no_patch) = Some ex_header_no_patch
   \<and> ''PATCH'' \<notin> fst ` set (findall None ex_header_no_patch)
   \<and> nanobind_version ex_header_no_patch = Inl (KeyError ''PATCH'')
   \<and> setup_py ex_env_no_patch [build_py] = (Some (KeyError ''PATCH''), initial_world)
   \<and> spawned (snd (setup_py ex_env_no_patch [build_py])) = []"
proof -
  have f: "files ex_env_no_patch (header_path ex_env_no_patch) = Some ex_header_no_patch"
    by (simp add: ex_env_no_patch_def ex_env_def header_path_def ex_this_directory ex_header_path)
  have nk: "''PATCH'' \<notin> fst ` set (findall None ex_header_no_patch)"
    by (simp add: ex_no_patch_findall)
  have fld: "''PATCH'' = ''MAJOR'' \<or> ''PATCH'' = ''MINOR'' \<or> ''PATCH'' = ''PATCH''" by simp
  from missing_field_fails_at_load [OF f fld nk, of "[build_py]"]
  obtain k' where "nanobind_version ex_header_no_patch = Inl (KeyError k')"
    and "setup_py ex_env_no_patch [build_py] = (Some (KeyError k'), initial_world)"
    and "spawned (snd (setup_py ex_env_no_patch [build_py])) = []"
    by (elim exE conjE)
  with f nk ex_no_patch_version show ?thesis by simp
qed

subsection \<open>C3: the build tool is not found\<close>

text \<open>
  C3: when \<open>shutil.which\<close> does not resolve the build tool, the binary build starts no
  subprocess, writes its diagnostic to the error stream and exits with \<open>SystemExit(1)\<close>;
  the packager is not called. This holds for the command in any state, and for the whole
  script with a binary build as its first command: its exit status is 1, no subprocess
  was started and the diagnostic is all it wrote.
\<close>

theorem tool_not_found_exits_1:
  assumes "search_path e ''cmake'' = None"
    and "module_body e initial_world = Inr (g, w0)"
  shows "fst (NanobindBuildPyCommand_run g e w) = Some (SystemExit 1)
       \<and> spawned (snd (NanobindBuildPyCommand_run g e w)) = spawned w
       \<and> stderr (snd (NanobindBuildPyCommand_run g e w))
           = stderr w @ ''CMake executable can't be found'' @ [newline]
       \<and> packager_runs (snd (NanobindBuildPyCommand_run g e w)) = packager_runs w
       \<and> fst (setup_py e (build_py # cs)) = Some (SystemExit 1)
       \<and> process_exit (fst (setup_py e (build_py # cs))) = 1
       \<and> spawned (snd (setup_py e (build_py # cs))) = []
       \<and> stderr (snd (setup_py e (build_py # cs)))
           = ''CMake executable can't be found'' @ [newline]
       \<and> packager_runs (snd (setup_py e (build_py # cs))) = []"
proof -
  from assms(1) have nf: "search_path e ''cmake'' = None \<or> search_path e ''cmake'' = Some []"
    by simp
  note run = build_py_not_found [OF nf]
  from module_body_world [OF assms(2)]
  have w0: "w0 = initial_world\<lparr>tmp_count := 1, dirs := {install_dir g}\<rparr>" .
  have script: "setup_py e (build_py # cs) =
      NanobindBuildPyCommand_run g e
        (w0\<lparr>package_dir := [''nanobind'' \<mapsto> install_dir g],
            package_data := [''nanobind'' \<mapsto> manifest]\<rparr>)"
    by (simp add: setup_py_def assms(2) setup'_def run_command_def run)
  show ?thesis
    by (simp add: script run w0 initial_world_def process_exit_def)
qed

theorem tool_not_found_exits_1_witness:
  "search_path ex_env_no_cmake ''cmake'' = None
   \<and> module_body ex_env_no_cmake initial_world = Inr (ex_globals, ex_world)
   \<and> fst (setup_py ex_env_no_cmake [build_py, sdist]) = Some (SystemExit 1)
   \<and> process_exit (fst (setup_py ex_env_no_cmake [build_py, sdist])) = 1
   \<and> spawned (snd (setup_py ex_env_no_cmake [build_py, sdist])) = []
   \<and> stderr (snd (setup_py ex_env_no_cmake [build_py, sdist]))
       = ''CMake executable can't be found'' @ [newline]
   \<and> packager_runs (snd (setup_py ex_env_no_cmake [build_py, sdist])) = []"
proof -
  have nf: "search_path ex_env_no_cmake ''cmake'' = None"
    by (simp add: ex_env_no_cmake_def)
  from tool_not_found_exits_1 [OF nf ex_module_body_variants(1), of ex_dist "[sdist]"]
  show ?thesis
    using nf ex_module_body_variants(1) by blast
qed

subsection \<open>C4: a stage fails\<close>

text \<open>
  C4: when the build tool is found and the configure stage or the install stage exits
  with a status other than zero, the command raises \<open>CalledProcessError\<close> for the first
  stage that failed; each stage was started at most once (the install stage not at all
  after a failed configure stage); the packager is not called; and \<open>setup\<close> runs no
  further command, so the process ends with the exception.
\<close>

theorem stage_failure_is_fatal:
  assumes "search_path e ''cmake'' = Some exe" and "exe \<noteq> []"
    and "conf = configure_args g exe (mkdtemp e ''tmp'' (tmp_count w))"
    and "inst = install_args g exe (mkdtemp e ''tmp'' (tmp_count w))"
    and "exit_status e conf \<noteq> 0 \<or> exit_status e inst \<noteq> 0"
  shows "fst (NanobindBuildPyCommand_run g e w) =
           Some (if exit_status e conf \<noteq> 0 then CalledProcessError (exit_status e conf) conf
                 else CalledProcessError (exit_status e inst) inst)
       \<and> spawned (snd (NanobindBuildPyCommand_run g e w)) =
           spawned w @ (if exit_status e conf \<noteq> 0 then [conf] else [conf, inst])
       \<and> packager_runs (snd (NanobindBuildPyCommand_run g e w)) = packager_runs w
       \<and> run_commands g e (build_py # cs) w = NanobindBuildPyCommand_run g e w
       \<and> process_exit (fst (run_commands g e (build_py # cs) w)) = 1"
  using assms(3-5)
  by (auto simp: build_py_found [OF assms(1,2)] Let_def run_command_def process_exit_def)

theorem stage_failure_is_fatal_witness:
  "fst (NanobindBuildPyCommand_run ex_globals
          ex_env_install_fails ex_dist)
     = Some (CalledProcessError 2
         [''/usr/bin/cmake'', ''--install'', ''/tmp/tmpY'', ''--prefix'', ''/tmp/nanobind_cmake_X''])
   \<and> spawned (snd (NanobindBuildPyCommand_run ex_globals
          ex_env_install_fails ex_dist))
     = [[''/usr/bin/cmake'', ''-S'', ''/repo'', ''-B'', ''/tmp/tmpY'',
         ''-DNB_PYTHON_INSTALLATION=ON'', ''-DNB_USE_SUBMODULE_DEPS=ON''],
        [''/usr/bin/cmake'', ''--install'', ''/tmp/tmpY'', ''--prefix'', ''/tmp/nanobind_cmake_X'']]
   \<and> packager_runs (snd (NanobindBuildPyCommand_run ex_globals
          ex_env_install_fails ex_dist))
     = []
   \<and> fst (NanobindBuildPyCommand_run ex_globals
          ex_env_configure_fails ex_dist)
     = Some (CalledProcessError 1
         [''/usr/bin/cmake'', ''-S'', ''/repo'', ''-B'', ''/tmp/tmpY'',
          ''-DNB_PYTHON_INSTALLATION=ON'', ''-DNB_USE_SUBMODULE_DEPS=ON''])
   \<and> spawned (snd (NanobindBuildPyCommand_run ex_globals
          ex_env_configure_fails ex_dist))
     = [[''/usr/bin/cmake'', ''-S'', ''/repo'', ''-B'', ''/tmp/tmpY'',
         ''-DNB_PYTHON_INSTALLATION=ON'', ''-DNB_USE_SUBMODULE_DEPS=ON'']]"
proof -
  let ?ei = ex_env_install_fails
  let ?ec = ex_env_configure_fails
  let ?conf = "[''/usr/bin/cmake'', ''-S'', ''/repo'', ''-B'', ''/tmp/tmpY'',
         ''-DNB_PYTHON_INSTALLATION=ON'', ''-DNB_USE_SUBMODULE_DEPS=ON'']"
  let ?inst = "[''/usr/bin/cmake'', ''--install'', ''/tmp/tmpY'', ''--prefix'',
         ''/tmp/nanobind_cmake_X'']"
  have cmi: "search_path ?ei ''cmake'' = Some ''/usr/bin/cmake''"
    and cmc: "search_path ?ec ''cmake'' = Some ''/usr/bin/cmake''"
    by (simp_all add: ex_env_def ex_env_install_fails_def ex_env_configure_fails_def)
  have ne: "''/usr/bin/cmake'' \<noteq> []" by simp
  have bi: "mkdtemp ?ei ''tmp'' (tmp_count ex_dist) = ''/tmp/tmpY''"
    and bc: "mkdtemp ?ec ''tmp'' (tmp_count ex_dist) = ''/tmp/tmpY''"
    by (simp_all add: ex_env_def ex_env_install_fails_def ex_env_configure_fails_def
        ex_dist_def ex_world_def initial_world_def)
  have confi: "?conf = configure_args ex_globals ''/usr/bin/cmake'' (mkdtemp ?ei ''tmp'' (tmp_count ex_dist))"
    and insti: "?inst = install_args ex_globals ''/usr/bin/cmake'' (mkdtemp ?ei ''tmp'' (tmp_count ex_dist))"
    by (simp_all only: bi) (simp_all add: configure_args_def install_args_def ex_globals_def)
  have confc: "?conf = configure_args ex_globals ''/usr/bin/cmake'' (mkdtemp ?ec ''tmp'' (tmp_count ex_dist))"
    and instc: "?inst = install_args ex_globals ''/usr/bin/cmake'' (mkdtemp ?ec ''tmp'' (tmp_count ex_dist))"
    by (simp_all only: bc) (simp_all add: configure_args_def install_args_def ex_globals_def)
  have si: "exit_status ?ei ?conf = 0" "exit_status ?ei ?inst = 2"
    by (simp_all add: install_fails_def ex_env_install_fails_def)
  have sc: "exit_status ?ec ?conf = 1"
    by (simp add: configure_fails_def ex_env_configure_fails_def)
  have fi: "exit_status ?ei ?conf \<noteq> 0 \<or> exit_status ?ei ?inst \<noteq> 0" using si by simp
  have fc: "exit_status ?ec ?conf \<noteq> 0 \<or> exit_status ?ec ?inst \<noteq> 0" using sc by simp
  have noruns: "packager_runs ex_dist = []" "spawned ex_dist = []"
    by (simp_all add: ex_dist_def ex_world_def initial_world_def)
  from stage_failure_is_fatal [OF cmi ne confi insti fi, of "[]"]
    stage_failure_is_fatal [OF cmc ne confc instc fc, of "[]"]
  show ?thesis
    unfolding si sc noruns by simp
qed

subsection \<open>C5: the version of a header\<close>

text \<open>
  C5 says that every header text that holds the definitions of \<open>MAJOR\<close>, \<open>MINOR\<close> and
  \<open>PATCH\<close> with the values 1, 2 and 3, in any order, gives the version \<open>1.2.3\<close>. The
  white space the pattern asks for before the value may be the end of the line: a
  definition without a value takes the whole next line as its value, and the definition
  in that line is not found. In the header below the line \<open>#define NB_VERSION_DEV\<close>
  stands before the three definitions; \<open>findall\<close> gives \<open>DEV\<close> the value
  \<open>#define NB_VERSION_MAJOR 1\<close>, there is no \<open>MAJOR\<close>, and the extraction raises
  \<open>KeyError\<close>.
\<close>

theorem version_dev_first_counterexample:
  "join_lines [''#define NB_VERSION_DEV'', render major_1, render minor_2, render patch_3, []]
     = ex_header_dev_first
   \<and> findall None ex_header_dev_first =
       [(''DEV'', ''#define NB_VERSION_MAJOR 1''), (''MINOR'', ''2''), (''PATCH'', ''3'')]
   \<and> nanobind_version ex_header_dev_first = Inl (KeyError ''MAJOR'')
   \<and> nanobind_version ex_header_dev_first \<noteq> Inr ''1.2.3''"
proof -
  have "join_lines [''#define NB_VERSION_DEV'', render major_1, render minor_2, render patch_3, []]
     = ex_header_dev_first"
    by code_simp
  moreover have "findall None ex_header_dev_first =
       [(''DEV'', ''#define NB_VERSION_MAJOR 1''), (''MINOR'', ''2''), (''PATCH'', ''3'')]"
    by code_simp
  moreover have "nanobind_version ex_header_dev_first = Inl (KeyError ''MAJOR'')"
    by code_simp
  ultimately show ?thesis by simp
qed

text \<open>
  C5, amended: take a header made of lines, each either a definition of a version field
  with its value on the same line (in any spelling the pattern accepts within a line:
  indented, with white space after \<open>#\<close>, with any white space between the words) or a
  line on which the pattern fails before the line ends. If the definitions of \<open>MAJOR\<close>,
  \<open>MINOR\<close> and \<open>PATCH\<close> in it have the values \<open>a\<close>, \<open>b\<close> and \<open>c\<close> and no other,
  wherever and in whatever order they stand, the version is \<open>a.b.c\<close>, made of the
  values as they are written; for the values 1, 2 and 3 it is exactly \<open>1.2.3\<close>.
\<close>

theorem version_of_header_lines:
  assumes "list_all well_formed ls"
    and "set (filter version_field (concat (map definitions ls)))
           = {(''MAJOR'', a), (''MINOR'', b), (''PATCH'', c)}"
  shows "nanobind_version (header_text ls) = Inr (a @ ''.'' @ b @ ''.'' @ c)"
proof -
  let ?ps = "concat (map definitions ls)"
  from findall_header_text [OF assms(1)] have f: "findall None (header_text ls) = ?ps" .
  have S: "p \<in> set (filter version_field ?ps) \<longleftrightarrow>
      p = (''MAJOR'', a) \<or> p = (''MINOR'', b) \<or> p = (''PATCH'', c)" for p
    by (simp only: assms(2) insert_iff empty_iff simp_thms)
  have field: "(k, v') \<in> set (filter version_field ?ps)"
    if "(k, v') \<in> set ?ps" and "k = ''MAJOR'' \<or> k = ''MINOR'' \<or> k = ''PATCH''" for k v'
    using that by (simp add: version_field_def)
  have "last_value ''MAJOR'' ?ps = Some a"
  proof (rule last_value_unique)
    have "(''MAJOR'', a) \<in> set (filter version_field ?ps)" by (simp only: S simp_thms)
    then show "(''MAJOR'', a) \<in> set ?ps" by simp
  next
    fix v' assume "(''MAJOR'', v') \<in> set ?ps"
    then have "(''MAJOR'', v') \<in> set (filter version_field ?ps)" by (rule field) simp
    then have "(''MAJOR'', v') = (''MAJOR'', a) \<or> (''MAJOR'', v') = (''MINOR'', b)
        \<or> (''MAJOR'', v') = (''PATCH'', c)" by (simp only: S)
    then show "v' = a" by simp
  qed
  moreover have "last_value ''MINOR'' ?ps = Some b"
  proof (rule last_value_unique)
    have "(''MINOR'', b) \<in> set (filter version_field ?ps)" by (simp only: S simp_thms)
    then show "(''MINOR'', b) \<in> set ?ps" by simp
  next
    fix v' assume "(''MINOR'', v') \<in> set ?ps"
    then have "(''MINOR'', v') \<in> set (filter version_field ?ps)" by (rule field) simp
    then have "(''MINOR'', v') = (''MAJOR'', a) \<or> (''MINOR'', v') = (''MINOR'', b)
        \<or> (''MINOR'', v') = (''PATCH'', c)" by (simp only: S)
    then show "v' = b" by simp
  qed
  moreover have "last_value ''PATCH'' ?ps = Some c"
  proof (rule last_value_unique)
    have "(''PATCH'', c) \<in> set (filter version_field ?ps)" by (simp only: S simp_thms)
    then show "(''PATCH'', c) \<in> set ?ps" by simp
  next
    fix v' assume "(''PATCH'', v') \<in> set ?ps"
    then have "(''PATCH'', v') \<in> set (filter version_field ?ps)" by (rule field) simp
    then have "(''PATCH'', v') = (''MAJOR'', a) \<or> (''PATCH'', v') = (''MINOR'', b)
        \<or> (''PATCH'', v') = (''PATCH'', c)" by (simp only: S)
    then show "v' = c" by simp
  qed
  ultimately show ?thesis
    by (simp add: nanobind_version_def matches_def f format_version dict_last_value)
qed

theorem version_of_header_lines_witness:
  "nanobind_version (header_text [major_1, minor_2, patch_3]) = Inr ''1.2.3''
   \<and> nanobind_version (header_text [major_1, patch_3, minor_2]) = Inr ''1.2.3''
   \<and> nanobind_version (header_text [minor_2, major_1, patch_3]) = Inr ''1.2.3''
   \<and> nanobind_version (header_text [minor_2, patch_3, major_1]) = Inr ''1.2.3''
   \<and> nanobind_version (header_text [patch_3, major_1, minor_2]) = Inr ''1.2.3''
   \<and> nanobind_version (header_text [patch_3, minor_2, major_1]) = Inr ''1.2.3''
   \<and> nanobind_version (header_text [patch_raw, major_1, Other [], minor_2])
       = Inr ''1.2.3rc1 // dev''
   \<and> list_all well_formed ex_spelled_lines
   \<and> nanobind_version (header_text ex_spelled_lines) = Inr ''1.2.3''
   \<and> list_all well_formed ex_lines
   \<and> header_text ex_lines = ex_header
   \<and> nanobind_version ex_header = Inr ''1.2.3''"
proof -
  from version_of_header_lines [OF ex_orders_well_formed(1) ex_orders_fields(1)]
    version_of_header_lines [OF ex_orders_well_formed(2) ex_orders_fields(2)]
    version_of_header_lines [OF ex_orders_well_formed(3) ex_orders_fields(3)]
    version_of_header_lines [OF ex_orders_well_formed(4) ex_orders_fields(4)]
    version_of_header_lines [OF ex_orders_well_formed(5) ex_orders_fields(5)]
    version_of_header_lines [OF ex_orders_well_formed(6) ex_orders_fields(6)]
    version_of_header_lines [OF ex_raw_well_formed ex_raw_fields]
    version_of_header_lines [OF ex_spelled_well_formed ex_spelled_fields]
    version_of_header_lines [OF ex_lines_well_formed ex_lines_fields]
  show ?thesis
    by (simp add: ex_lines_well_formed ex_spelled_well_formed ex_lines_text)
qed

subsection \<open>C6: the root of a binary build\<close>

text \<open>
  C6 says that a binary build whose orchestration succeeds is packaged from the install
  directory. The command class never sets the root: it relies on \<open>package_dir\<close> as
  declared in the call of \<open>setup\<close>, which the source-distribution command overwrites
  with \<open>os.curdir\<close> in the same distribution. On the command line \<open>sdist build_py\<close> both
  stages of the build succeed and install into \<open>/tmp/nanobind_cmake_X\<close>, and the
  packager of the binary build is called with the root \<open>.\<close>.
\<close>

theorem build_after_sdist_root:
  "fst (setup_py ex_env [sdist, build_py]) = None
   \<and> install_dir ex_globals = ''/tmp/nanobind_cmake_X''
   \<and> spawned (snd (setup_py ex_env [sdist, build_py])) =
       [[''/usr/bin/cmake'', ''-S'', ''/repo'', ''-B'', ''/tmp/tmpY'',
         ''-DNB_PYTHON_INSTALLATION=ON'', ''-DNB_USE_SUBMODULE_DEPS=ON''],
        [''/usr/bin/cmake'', ''--install'', ''/tmp/tmpY'', ''--prefix'', ''/tmp/nanobind_cmake_X'']]
   \<and> packager_runs (snd (setup_py ex_env [sdist, build_py])) =
       [(sdist, Some ''.'', Some manifest), (build_py, Some ''.'', Some manifest)]"
  using ex_sdist_then_build by (simp add: ex_globals_def)

text \<open>Where the root is still the declared one (no source-distribution command ran
  before in the process), a successful binary build is packaged from the install
  directory.\<close>

lemma build_py_root_as_declared:
  assumes "search_path e ''cmake'' = Some exe" and "exe \<noteq> []"
    and "package_dir w ''nanobind'' = Some (install_dir g)"
    and "fst (NanobindBuildPyCommand_run g e w) = None"
  shows "packager_runs (snd (NanobindBuildPyCommand_run g e w)) =
           packager_runs w @ [(build_py, Some (install_dir g), package_data w ''nanobind'')]"
  using assms(3,4)
  by (auto simp: build_py_found [OF assms(1,2)] Let_def split: if_splits)

subsection \<open>C7: the build workspace\<close>

text \<open>
  C7: when the build tool is found, the command creates the build workspace, gives it to
  the configure stage, and the workspace does not exist when the command ends, whatever
  the exit status of the two stages: the temporary directories that exist afterwards are
  those that existed before, without the workspace.
\<close>

theorem build_workspace_removed:
  assumes "search_path e ''cmake'' = Some exe" and "exe \<noteq> []"
  shows "mkdtemp e ''tmp'' (tmp_count w) \<notin> dirs (snd (NanobindBuildPyCommand_run g e w))
       \<and> dirs (snd (NanobindBuildPyCommand_run g e w)) = dirs w - {mkdtemp e ''tmp'' (tmp_count w)}
       \<and> (\<exists>rest. spawned (snd (NanobindBuildPyCommand_run g e w)) =
             spawned w @ configure_args g exe (mkdtemp e ''tmp'' (tmp_count w)) # rest)"
  by (auto simp: build_py_found [OF assms(1,2)] Let_def)

theorem build_workspace_removed_witness:
  "dirs (snd (NanobindBuildPyCommand_run ex_globals
          ex_env_install_fails ex_dist))
     = {''/tmp/nanobind_cmake_X''}
   \<and> dirs (snd (NanobindBuildPyCommand_run ex_globals
          ex_env_configure_fails ex_dist))
     = {''/tmp/nanobind_cmake_X''}
   \<and> dirs (snd (NanobindBuildPyCommand_run ex_globals ex_env ex_dist))
     = {''/tmp/nanobind_cmake_X''}"
proof -
  let ?ei = ex_env_install_fails
  let ?ec = ex_env_configure_fails
  have cmi: "search_path ?ei ''cmake'' = Some ''/usr/bin/cmake''"
    and cmc: "search_path ?ec ''cmake'' = Some ''/usr/bin/cmake''"
    and cm: "search_path ex_env ''cmake'' = Some ''/usr/bin/cmake''"
    by (simp_all add: ex_env_def ex_env_install_fails_def ex_env_configure_fails_def)
  have ne: "''/usr/bin/cmake'' \<noteq> []" by simp
  have b: "mkdtemp ?ei ''tmp'' (tmp_count ex_dist) = ''/tmp/tmpY''"
    "mkdtemp ?ec ''tmp'' (tmp_count ex_dist) = ''/tmp/tmpY''"
    "mkdtemp ex_env ''tmp'' (tmp_count ex_dist) = ''/tmp/tmpY''"
    by (simp_all add: ex_env_def ex_env_install_fails_def ex_env_configure_fails_def
        ex_dist_def ex_world_def initial_world_def)
  have d: "dirs ex_dist = {''/tmp/nanobind_cmake_X''}"
    by (simp add: ex_dist_def ex_world_def)
  from build_workspace_removed [OF cmi ne, of ex_dist ex_globals]
    build_workspace_removed [OF cmc ne, of ex_dist ex_globals]
    build_workspace_removed [OF cm ne, of ex_dist ex_globals]
  show ?thesis
    unfolding b d by simp
qed

subsection \<open>C8: the dependency toggle\<close>

text \<open>
  C8: the module body reads \<open>NB_USE_SUBMODULE_DEPS\<close> from the environment, with \<open>ON\<close>
  when it is not set, and the configure stage is started with exactly the arguments of
  the script, the last of which is \<open>-DNB_USE_SUBMODULE_DEPS=\<close> followed by that value
  as it is.
\<close>

theorem toggle_passed_verbatim:
  assumes "module_body e initial_world = Inr (g, w0)"
    and "search_path e ''cmake'' = Some exe" and "exe \<noteq> []"
  shows "NB_USE_SUBMODULE_DEPS g =
           (case environ e ''NB_USE_SUBMODULE_DEPS'' of None \<Rightarrow> ''ON'' | Some v \<Rightarrow> v)
       \<and> (\<exists>rest. spawned (snd (NanobindBuildPyCommand_run g e w)) =
             spawned w @
             [exe, ''-S'', this_directory g, ''-B'', mkdtemp e ''tmp'' (tmp_count w),
              ''-DNB_PYTHON_INSTALLATION=ON'',
              ''-DNB_USE_SUBMODULE_DEPS='' @
                (case environ e ''NB_USE_SUBMODULE_DEPS'' of None \<Rightarrow> ''ON'' | Some v \<Rightarrow> v)]
             # rest)"
proof -
  note deps = module_body_globals(1) [OF assms(1)]
  have "\<exists>rest. spawned (snd (NanobindBuildPyCommand_run g e w)) =
      spawned w @ configure_args g exe (mkdtemp e ''tmp'' (tmp_count w)) # rest"
    by (auto simp: build_py_found [OF assms(2,3)] Let_def)
  then show ?thesis
    using deps by (simp add: configure_args_def)
qed

theorem toggle_passed_verbatim_witness:
  "environ ex_env_toggle ''NB_USE_SUBMODULE_DEPS'' = Some ''maybe''
   \<and> (\<exists>rest. spawned (snd (NanobindBuildPyCommand_run
          (ex_globals\<lparr>NB_USE_SUBMODULE_DEPS := ''maybe''\<rparr>) ex_env_toggle ex_dist)) =
        [''/usr/bin/cmake'', ''-S'', ''/repo'', ''-B'', ''/tmp/tmpY'',
         ''-DNB_PYTHON_INSTALLATION=ON'', ''-DNB_USE_SUBMODULE_DEPS=maybe''] # rest)
   \<and> environ ex_env ''NB_USE_SUBMODULE_DEPS'' = None
   \<and> (\<exists>rest. spawned (snd (NanobindBuildPyCommand_run ex_globals ex_env ex_dist)) =
        [''/usr/bin/cmake'', ''-S'', ''/repo'', ''-B'', ''/tmp/tmpY'',
         ''-DNB_PYTHON_INSTALLATION=ON'', ''-DNB_USE_SUBMODULE_DEPS=ON''] # rest)"
proof -
  have cmt: "search_path ex_env_toggle ''cmake'' = Some ''/usr/bin/cmake''"
    and cm: "search_path ex_env ''cmake'' = Some ''/usr/bin/cmake''"
    by (simp_all add: ex_env_def ex_env_toggle_def)
  have ne: "''/usr/bin/cmake'' \<noteq> []" by simp
  have b: "mkdtemp ex_env_toggle ''tmp'' (tmp_count ex_dist) = ''/tmp/tmpY''"
    "mkdtemp ex_env ''tmp'' (tmp_count ex_dist) = ''/tmp/tmpY''"
    by (simp_all add: ex_env_def ex_env_toggle_def ex_dist_def ex_world_def initial_world_def)
  have v: "environ ex_env_toggle ''NB_USE_SUBMODULE_DEPS'' = Some ''maybe''"
    "environ ex_env ''NB_USE_SUBMODULE_DEPS'' = None"
    by (simp_all add: ex_env_def ex_env_toggle_def)
  have w: "spawned ex_dist = []"
    by (simp add: ex_dist_def ex_world_def initial_world_def)
  have td: "this_directory (ex_globals\<lparr>NB_USE_SUBMODULE_DEPS := ''maybe''\<rparr>) = ''/repo''"
    "this_directory ex_globals = ''/repo''"
    by (simp_all add: ex_globals_def)
  from toggle_passed_verbatim [OF ex_module_body_variants(4) cmt ne, of ex_dist]
    toggle_passed_verbatim [OF ex_module_body cm ne, of ex_dist]
  show ?thesis
    unfolding b v w td by simp
qed

subsection \<open>C9: one manifest\<close>

text \<open>
  C9: neither command class changes \<open>package_data\<close>, and whatever the commands of the
  command line are, every call of the packager finds the declared list of patterns for
  \<open>nanobind\<close>, in the declared order.
\<close>

theorem manifest_same_in_both_variants:
  "package_data (snd (NanobindSdistCommand_run g e w)) = package_data w
   \<and> package_data (snd (NanobindBuildPyCommand_run g e w)) = package_data w
   \<and> (\<forall>r \<in> set (packager_runs (snd (setup_py e cmds))). snd (snd r) = Some manifest)"
proof -
  have "package_data (snd (run_command g e sdist w)) = package_data w"
    and "package_data (snd (run_command g e build_py w)) = package_data w"
    by (rule run_command_package_data)+
  moreover from setup_py_patterns_ok [of e cmds]
  have "\<forall>r \<in> set (packager_runs (snd (setup_py e cmds))). snd (snd r) = Some manifest"
    by (simp add: list_all_iff)
  ultimately show ?thesis by (simp add: run_command_def)
qed

theorem manifest_same_in_both_variants_witness:
  "(sdist, Some ''.'', Some manifest) \<in> set (packager_runs (snd (setup_py ex_env [sdist, build_py])))
   \<and> (build_py, Some ''.'', Some manifest)
        \<in> set (packager_runs (snd (setup_py ex_env [sdist, build_py])))
   \<and> map (\<lambda>r. snd (snd r)) (packager_runs (snd (setup_py ex_env [sdist, build_py])))
        = [Some manifest, Some manifest]"
proof -
  from ex_sdist_then_build
  have runs: "packager_runs (snd (setup_py ex_env [sdist, build_py])) =
       [(sdist, Some ''.'', Some manifest), (build_py, Some ''.'', Some manifest)]"
    by simp
  have len: "length (packager_runs (snd (setup_py ex_env [sdist, build_py]))) = 2"
    by (simp add: runs)
  from manifest_same_in_both_variants [of ex_globals ex_env ex_dist "[sdist, build_py]"]
  have all: "\<forall>r \<in> set (packager_runs (snd (setup_py ex_env [sdist, build_py]))).
      snd (snd r) = Some manifest"
    by simp
  then have "map (\<lambda>r. snd (snd r)) (packager_runs (snd (setup_py ex_env [sdist, build_py])))
      = replicate (length (packager_runs (snd (setup_py ex_env [sdist, build_py])))) (Some manifest)"
    by (simp add: map_replicate_const [symmetric] cong: map_cong)
  with len have "map (\<lambda>r. snd (snd r)) (packager_runs (snd (setup_py ex_env [sdist, build_py])))
      = [Some manifest, Some manifest]"
    by (simp add: numeral_2_eq_2)
  with runs show ?thesis by simp
qed

subsection \<open>C10: a field defined more than once\<close>



end
